theory Spec2Isabelle
  imports Complex_Main "HOL-Library.AList" "HOL-Library.Sublist"
begin

section \<open>Expense manager: entries, store operations and aggregation\<close>

text \<open>
  The dashboard (\<^verbatim>\<open>ExpenseIncomeManager\<close>) and the calendar page (\<^verbatim>\<open>CalendarPage\<close>)
  share one list of entries.
\<close>

subsection \<open>JavaScript numbers\<close>

text \<open>
  Amounts are JavaScript numbers, that is IEEE 754 doubles: a finite double, which is a
  rational number, one of the two infinities, or \<^verbatim>\<open>NaN\<close>. The two zeros are one value
  here; the source never divides by a zero and never prints one, and every other operation
  below gives the same result for both. An arithmetic operation on finite numbers is the
  exact operation followed by rounding to the nearest double, ties to the even significand,
  and a result of magnitude \<open>2\<^sup>1\<^sup>0\<^sup>2\<^sup>4\<close> or more after rounding is an infinity.
  \<open>round_finite\<close> writes the rounding out: the value is scaled to a significand of 53 bits
  (or to the least exponent, for a subnormal), the significand is rounded to an integer and
  scaled back.
\<close>

datatype jsnum = Num rat | PosInf | NegInf | NaN

definition roundTiesToEven :: "rat \<Rightarrow> int" where
  "roundTiesToEven m =
     (let f = \<lfloor>m\<rfloor>; r = m - of_int f
      in if r < 1 / 2 then f
         else if 1 / 2 < r then f + 1
         else if even f then f else f + 1)"

function scale_down :: "rat \<Rightarrow> int \<Rightarrow> rat \<times> int" where
  "scale_down m e = (if 2 ^ 53 \<le> \<bar>m\<bar> then scale_down (m / 2) (e + 1) else (m, e))"
  by pat_completeness auto
termination
proof (relation "measure (\<lambda>(m, e). nat \<lfloor>\<bar>m\<bar>\<rfloor>)")
  show "wf (measure (\<lambda>(m, e). nat \<lfloor>\<bar>m\<bar>\<rfloor>))" by simp
next
  fix m :: rat and e :: int
  assume big: "2 ^ 53 \<le> \<bar>m\<bar>"
  then have "\<bar>m / 2\<bar> + 1 \<le> \<bar>m\<bar>" by simp
  then have "\<lfloor>\<bar>m / 2\<bar> + 1\<rfloor> \<le> \<lfloor>\<bar>m\<bar>\<rfloor>" by (rule floor_mono)
  then have "\<lfloor>\<bar>m / 2\<bar>\<rfloor> < \<lfloor>\<bar>m\<bar>\<rfloor>" by simp
  moreover have "1 \<le> \<bar>m\<bar>" using big by (rule order_trans [rotated]) simp
  ultimately show "((m / 2, e + 1), (m, e)) \<in> measure (\<lambda>(m, e). nat \<lfloor>\<bar>m\<bar>\<rfloor>)"
    by simp
qed

function scale_up :: "rat \<Rightarrow> int \<Rightarrow> rat \<times> int" where
  "scale_up m e =
     (if m \<noteq> 0 \<and> \<bar>m\<bar> < 2 ^ 52 \<and> - 1074 < e then scale_up (m * 2) (e - 1) else (m, e))"
  by pat_completeness auto
termination
  by (relation "measure (\<lambda>(m, e). nat (e + 1074))") auto

declare scale_down.simps [simp del] scale_up.simps [simp del]

definition round_finite :: "rat \<Rightarrow> rat" where
  "round_finite x =
     (case scale_down x 0 of (m, e) \<Rightarrow>
        case scale_up m e of (m', e') \<Rightarrow> of_int (roundTiesToEven m') * 2 powi e')"

definition round_double :: "rat \<Rightarrow> jsnum" where
  "round_double x =
     (let r = round_finite x
      in if 2 ^ 1024 \<le> r then PosInf else if r \<le> - (2 ^ 1024) then NegInf else Num r)"

text \<open>
  The operators \<^verbatim>\<open>+\<close>, \<^verbatim>\<open>-\<close>, \<^verbatim>\<open>*\<close> and \<^verbatim>\<open>/\<close> on numbers, and the comparison
  \<^verbatim>\<open><\<close>, which is false whenever an operand is \<^verbatim>\<open>NaN\<close>.
\<close>

fun fadd :: "jsnum \<Rightarrow> jsnum \<Rightarrow> jsnum" where
  "fadd (Num x) (Num y) = round_double (x + y)"
| "fadd NaN b = NaN"
| "fadd a NaN = NaN"
| "fadd PosInf NegInf = NaN"
| "fadd NegInf PosInf = NaN"
| "fadd PosInf b = PosInf"
| "fadd a PosInf = PosInf"
| "fadd NegInf b = NegInf"
| "fadd a NegInf = NegInf"

declare fadd.simps(1) [simp del]

fun fneg :: "jsnum \<Rightarrow> jsnum" where
  "fneg (Num x) = Num (- x)"
| "fneg PosInf = NegInf"
| "fneg NegInf = PosInf"
| "fneg NaN = NaN"

definition fsub :: "jsnum \<Rightarrow> jsnum \<Rightarrow> jsnum" where
  "fsub a b = fadd a (fneg b)"

text \<open>The sign of a number that is not \<^verbatim>\<open>NaN\<close>; a zero counts as positive.\<close>

fun nonneg :: "jsnum \<Rightarrow> bool" where
  "nonneg (Num x) = (0 \<le> x)"
| "nonneg PosInf = True"
| "nonneg NegInf = False"
| "nonneg NaN = True"

definition signed_inf :: "bool \<Rightarrow> jsnum" where
  "signed_inf pos = (if pos then PosInf else NegInf)"

fun fmul :: "jsnum \<Rightarrow> jsnum \<Rightarrow> jsnum" where
  "fmul (Num x) (Num y) = round_double (x * y)"
| "fmul NaN b = NaN"
| "fmul a NaN = NaN"
| "fmul (Num x) b = (if x = 0 then NaN else signed_inf (nonneg (Num x) = nonneg b))"
| "fmul a (Num y) = (if y = 0 then NaN else signed_inf (nonneg a = nonneg (Num y)))"
| "fmul a b = signed_inf (nonneg a = nonneg b)"

fun fdiv :: "jsnum \<Rightarrow> jsnum \<Rightarrow> jsnum" where
  "fdiv (Num x) (Num y) =
     (if y = 0 then (if x = 0 then NaN else signed_inf (0 < x)) else round_double (x / y))"
| "fdiv NaN b = NaN"
| "fdiv a NaN = NaN"
| "fdiv (Num x) b = Num 0"
| "fdiv a (Num y) = signed_inf (nonneg a = nonneg (Num y))"
| "fdiv a b = NaN"

fun js_less :: "jsnum \<Rightarrow> jsnum \<Rightarrow> bool" where
  "js_less (Num x) (Num y) = (x < y)"
| "js_less NaN b = False"
| "js_less a NaN = False"
| "js_less a NegInf = False"
| "js_less NegInf b = True"
| "js_less PosInf b = False"
| "js_less a PosInf = True"

subsection \<open>JavaScript objects used as dictionaries\<close>

text \<open>
  The aggregation passes keep their tables in plain objects (\<^verbatim>\<open>{}\<close>) indexed by a
  category or a date string. Such an object has its own properties, kept here as an
  association list in the order of their creation, and it inherits the properties of
  \<^verbatim>\<open>Object.prototype\<close>: reading a key that is not an own property but names one of those
  gives the inherited value, a function or (for \<^verbatim>\<open>__proto__\<close>) the prototype object
  itself, which is truthy. The names are those of the ECMAScript specification with its
  Annex B. The source enumerates the own keys that are array indices first; no statement
  below depends on the order of the keys.
\<close>

definition inherited_names :: "string list" where
  "inherited_names =
     [''constructor'', ''hasOwnProperty'', ''isPrototypeOf'', ''propertyIsEnumerable'',
      ''toLocaleString'', ''toString'', ''valueOf'', ''__proto__'',
      ''__defineGetter__'', ''__defineSetter__'', ''__lookupGetter__'', ''__lookupSetter__'']"

text \<open>
  What \<^verbatim>\<open>obj[k]\<close> finds in a table of buckets: an own bucket, an inherited value that is
  not a bucket, or nothing.
\<close>

datatype 'a lookup = Own 'a | Inherited | Absent

definition obj_lookup :: "(string \<times> 'a) list \<Rightarrow> string \<Rightarrow> 'a lookup" where
  "obj_lookup obj k =
     (case map_of obj k of
        Some v \<Rightarrow> Own v
      | None \<Rightarrow> if k \<in> set inherited_names then Inherited else Absent)"

text \<open>
  The values that occur in a table of category totals: a number, a string (the result of
  \<^verbatim>\<open>+\<close> with an operand that is not a number; its text is not kept), an inherited
  function or object, and \<^verbatim>\<open>undefined\<close>.
\<close>

datatype jsval = Undefined | Number jsnum | Text | Builtin

definition obj_get :: "(string \<times> jsval) list \<Rightarrow> string \<Rightarrow> jsval" where
  "obj_get obj k =
     (case map_of obj k of
        Some v \<Rightarrow> v
      | None \<Rightarrow> if k \<in> set inherited_names then Builtin else Undefined)"

text \<open>
  Assigning a number or a string to \<^verbatim>\<open>obj[k]\<close> creates or overwrites the own property,
  except for \<^verbatim>\<open>__proto__\<close>, whose inherited setter ignores a value that is not an object.
\<close>

definition obj_set :: "(string \<times> jsval) list \<Rightarrow> string \<Rightarrow> jsval \<Rightarrow> (string \<times> jsval) list" where
  "obj_set obj k v = (if k = ''__proto__'' then obj else AList.update k v obj)"

fun truthy :: "jsval \<Rightarrow> bool" where
  "truthy Undefined = False"
| "truthy (Number x) = (x \<noteq> Num 0 \<and> x \<noteq> NaN)"
| "truthy Text = True"
| "truthy Builtin = True"

definition js_or :: "jsval \<Rightarrow> jsval \<Rightarrow> jsval" where
  "js_or a b = (if truthy a then a else b)"

text \<open>
  \<^verbatim>\<open>a + b\<close>: the sum of two numbers (\<^verbatim>\<open>undefined\<close> counting as \<^verbatim>\<open>NaN\<close>), and a
  string as soon as an operand is a string, a function or an object.
\<close>

fun to_number :: "jsval \<Rightarrow> jsnum" where
  "to_number (Number x) = x"
| "to_number v = NaN"

fun js_plus :: "jsval \<Rightarrow> jsval \<Rightarrow> jsval" where
  "js_plus Text b = Text"
| "js_plus Builtin b = Text"
| "js_plus a Text = Text"
| "js_plus a Builtin = Text"
| "js_plus a b = Number (fadd (to_number a) (to_number b))"

subsection \<open>Data model\<close>

datatype entry_type = gasto | ingreso

record Entry =
  id' :: string
  type' :: entry_type
  category :: string
  amount :: jsnum
  date :: string
  description :: "string option"

text \<open>The form state \<^verbatim>\<open>newEntry\<close>: every field but the type is the text of an input.\<close>

record NewEntry =
  new_type :: entry_type
  new_category :: string
  new_amount :: string
  new_date :: string
  new_description :: string

record app_state =
  entries :: "Entry list"
  newEntry :: NewEntry

record Totals =
  gastos :: jsnum
  ingresos :: jsnum
  balance :: jsnum

subsection \<open>Store operations of the dashboard\<close>

text \<open>
  \<^verbatim>\<open>addEntry\<close> reads the clock twice and parses the amount text; the three are
  parameters: \<open>parseFloat\<close> for \<^verbatim>\<open>Number.parseFloat\<close>, \<open>now\<close> for
  \<^verbatim>\<open>Date.now().toString()\<close> and \<open>today\<close> for
  \<^verbatim>\<open>format(new Date(), "yyyy-MM-dd")\<close>. An empty string is the only falsy string.
\<close>

definition addEntry :: "(string \<Rightarrow> jsnum) \<Rightarrow> string \<Rightarrow> string \<Rightarrow> app_state \<Rightarrow> app_state" where
  "addEntry parseFloat now today st =
     (if new_category (newEntry st) = [] \<or> new_amount (newEntry st) = [] then st
      else
        let entry = \<lparr> id' = now,
                      type' = new_type (newEntry st),
                      category = new_category (newEntry st),
                      amount = parseFloat (new_amount (newEntry st)),
                      date = new_date (newEntry st),
                      description = Some (new_description (newEntry st)) \<rparr>
        in st \<lparr> entries := entries st @ [entry],
                newEntry := \<lparr> new_type = gasto, new_category = [], new_amount = [],
                              new_date = today, new_description = [] \<rparr> \<rparr>)"

definition deleteEntry :: "string \<Rightarrow> app_state \<Rightarrow> app_state" where
  "deleteEntry i st = st \<lparr> entries := filter (\<lambda>entry. id' entry \<noteq> i) (entries st) \<rparr>"

subsection \<open>Aggregation of the dashboard\<close>

text \<open>
  \<^verbatim>\<open>xs.reduce((sum, e) => sum + e.amount, 0)\<close> is a left fold from zero, each step
  one addition of doubles.
\<close>

definition reduce_amount :: "Entry list \<Rightarrow> jsnum" where
  "reduce_amount xs = foldl (\<lambda>sum e. fadd sum (amount e)) (Num 0) xs"

definition totals :: "Entry list \<Rightarrow> Totals" where
  "totals es =
     (let g = reduce_amount (filter (\<lambda>e. type' e = gasto) es);
          i = reduce_amount (filter (\<lambda>e. type' e = ingreso) es)
      in \<lparr> gastos = g, ingresos = i, balance = fsub i g \<rparr>)"

text \<open>
  \<^verbatim>\<open>categoryTotals\<close>: each entry rewrites the property of its category in the table of
  its kind with \<^verbatim>\<open>(table[category] || 0) + amount\<close>.
\<close>

record CategoryTotals =
  cat_gastos :: "(string \<times> jsval) list"
  cat_ingresos :: "(string \<times> jsval) list"

definition bump :: "(string \<times> jsval) list \<Rightarrow> string \<Rightarrow> jsnum \<Rightarrow> (string \<times> jsval) list" where
  "bump table k a = obj_set table k (js_plus (js_or (obj_get table k) (Number (Num 0))) (Number a))"

definition categoryStep :: "Entry \<Rightarrow> CategoryTotals \<Rightarrow> CategoryTotals" where
  "categoryStep entry acc =
     (if type' entry = gasto
      then acc \<lparr> cat_gastos := bump (cat_gastos acc) (category entry) (amount entry) \<rparr>
      else acc \<lparr> cat_ingresos := bump (cat_ingresos acc) (category entry) (amount entry) \<rparr>)"

definition categoryTotals :: "Entry list \<Rightarrow> CategoryTotals" where
  "categoryTotals es = fold categoryStep es \<lparr> cat_gastos = [], cat_ingresos = [] \<rparr>"

text \<open>
  \<^verbatim>\<open>dailyTotals\<close> of the dashboard: one pass, a bucket per date string, created with
  two zeros when \<^verbatim>\<open>totalsByDate[dateStr]\<close> is falsy. When the date string names an
  inherited property the value read is truthy: no bucket is created, and the addition is
  written onto the inherited function or object, a property \<^verbatim>\<open>ingresos\<close> or
  \<^verbatim>\<open>gastos\<close> with the value \<^verbatim>\<open>NaN\<close>, which is falsy wherever a later pass reads it;
  the table is as before.
\<close>

record DayTotals =
  day_ingresos :: jsnum
  day_gastos :: jsnum

definition dayAdd :: "Entry \<Rightarrow> DayTotals \<Rightarrow> DayTotals" where
  "dayAdd entry b =
     (if type' entry = ingreso
      then b \<lparr> day_ingresos := fadd (day_ingresos b) (amount entry) \<rparr>
      else b \<lparr> day_gastos := fadd (day_gastos b) (amount entry) \<rparr>)"

definition dailyStep :: "Entry \<Rightarrow> (string \<times> DayTotals) list \<Rightarrow> (string \<times> DayTotals) list" where
  "dailyStep entry totalsByDate =
     (let dateStr = date entry
      in case obj_lookup totalsByDate dateStr of
           Inherited \<Rightarrow> totalsByDate
         | Absent \<Rightarrow>
             AList.update dateStr (dayAdd entry \<lparr> day_ingresos = Num 0, day_gastos = Num 0 \<rparr>)
               totalsByDate
         | Own b \<Rightarrow> AList.update dateStr (dayAdd entry b) totalsByDate)"

definition dailyTotals :: "Entry list \<Rightarrow> (string \<times> DayTotals) list" where
  "dailyTotals es = fold dailyStep es []"

subsection \<open>Analytics ratios of the dashboard\<close>

text \<open>
  What the two ratio cells show: the infinity sign, the literal number zero, or a number
  rendered by \<^verbatim>\<open>toFixed\<close> with the given count of decimals.
\<close>

datatype shown = InfinitySign | Literal int | ToFixed nat jsnum

definition ratioIngresoGasto :: "Totals \<Rightarrow> shown" where
  "ratioIngresoGasto t =
     (if js_less (Num 0) (gastos t) then ToFixed 2 (fdiv (ingresos t) (gastos t))
      else InfinitySign)"

definition tasaDeAhorro :: "Totals \<Rightarrow> shown" where
  "tasaDeAhorro t =
     (if js_less (Num 0) (ingresos t)
      then ToFixed 1 (fmul (fdiv (balance t) (ingresos t)) (Num 100))
      else Literal 0)"

section \<open>Calendar page\<close>

subsection \<open>Daily totals with the entries of each day\<close>

text \<open>
  The pass of the calendar page also pushes the entry onto the list of its bucket. When
  the date string names an inherited property, \<^verbatim>\<open>totalsByDate[dateStr].entries\<close> is not
  an array and \<^verbatim>\<open>push\<close> throws a \<^verbatim>\<open>TypeError\<close>, which ends the pass.
\<close>

datatype error = TypeError | RangeError

record DayData =
  cal_ingresos :: jsnum
  cal_gastos :: jsnum
  cal_entries :: "Entry list"

definition pushAdd :: "Entry \<Rightarrow> DayData \<Rightarrow> DayData" where
  "pushAdd entry b =
     (let pushed = b \<lparr> cal_entries := cal_entries b @ [entry] \<rparr>
      in if type' entry = ingreso
         then pushed \<lparr> cal_ingresos := fadd (cal_ingresos pushed) (amount entry) \<rparr>
         else pushed \<lparr> cal_gastos := fadd (cal_gastos pushed) (amount entry) \<rparr>)"

definition calendarStep :: "Entry \<Rightarrow> (string \<times> DayData) list \<Rightarrow> error + (string \<times> DayData) list" where
  "calendarStep entry totalsByDate =
     (let dateStr = date entry
      in case obj_lookup totalsByDate dateStr of
           Inherited \<Rightarrow> Inl TypeError
         | Absent \<Rightarrow>
             Inr (AList.update dateStr
                    (pushAdd entry \<lparr> cal_ingresos = Num 0, cal_gastos = Num 0, cal_entries = [] \<rparr>)
                    totalsByDate)
         | Own b \<Rightarrow> Inr (AList.update dateStr (pushAdd entry b) totalsByDate))"

fun calendarPass :: "Entry list \<Rightarrow> (string \<times> DayData) list \<Rightarrow> error + (string \<times> DayData) list" where
  "calendarPass [] totalsByDate = Inr totalsByDate"
| "calendarPass (entry # es) totalsByDate =
     (case calendarStep entry totalsByDate of
        Inl err \<Rightarrow> Inl err
      | Inr t \<Rightarrow> calendarPass es t)"

definition calendarDailyTotals :: "Entry list \<Rightarrow> error + (string \<times> DayData) list" where
  "calendarDailyTotals es = calendarPass es []"

subsection \<open>Dates\<close>

text \<open>
  The calendar works on JavaScript \<^verbatim>\<open>Date\<close> objects through \<^verbatim>\<open>date-fns\<close>. A
  \<^verbatim>\<open>Date\<close> holds a time value, the count of milliseconds since the start of
  1 January 1970 in universal time, or is invalid (its time value is \<^verbatim>\<open>NaN\<close>), which
  is \<open>None\<close> here. Its getters and setters work on the local time of the zone the program
  runs in. The calendar algorithms are those of the ECMAScript specification; they depend
  on a time value only through its day number, and are written on day numbers first.
\<close>

type_synonym Date = "int option"

definition msPerDay :: int where
  "msPerDay = 86400000"

definition Day :: "int \<Rightarrow> int" where
  "Day t = t div msPerDay"


definition DaysInYear :: "int \<Rightarrow> int" where
  "DaysInYear y =
     (if y mod 4 \<noteq> 0 then 365
      else if y mod 100 \<noteq> 0 then 366
      else if y mod 400 \<noteq> 0 then 365
      else 366)"

definition DayFromYear :: "int \<Rightarrow> int" where
  "DayFromYear y = 365 * (y - 1970) + (y - 1969) div 4 - (y - 1901) div 100 + (y - 1601) div 400"


text \<open>Stepping one year forward adds the length of that year.\<close>

lemma div_next:
  fixes x c :: int
  assumes "0 < c"
  shows "(x + 1) div c = (if (x + 1) mod c = 0 then x div c + 1 else x div c)"
proof (cases "(x + 1) mod c = 0")
  case True
  have "x = c * ((x + 1) div c - 1) + (c - 1)"
    using True mult_div_mod_eq [of c "x + 1"] by (simp add: algebra_simps)
  then have "x div c = (x + 1) div c - 1"
    using assms int_div_pos_eq [of x c "(x + 1) div c - 1" "c - 1"] by simp
  with True show ?thesis by simp
next
  case False
  have r: "0 \<le> (x + 1) mod c" "(x + 1) mod c < c" using assms by simp_all
  have "x = c * ((x + 1) div c) + ((x + 1) mod c - 1)"
    using mult_div_mod_eq [of c "x + 1"] by (simp add: algebra_simps)
  then have "x div c = (x + 1) div c"
    using assms r False int_div_pos_eq [of x c "(x + 1) div c" "(x + 1) mod c - 1"] by simp
  with False show ?thesis by simp
qed

lemma mod_shift:
  fixes y :: int
  shows "(y - 1968) mod 4 = 0 \<longleftrightarrow> y mod 4 = 0"
    and "(y - 1900) mod 100 = 0 \<longleftrightarrow> y mod 100 = 0"
    and "(y - 1600) mod 400 = 0 \<longleftrightarrow> y mod 400 = 0"
proof -
  have "(y + (- 492) * 4) mod 4 = y mod 4" by (rule mod_mult_self1)
  then show "(y - 1968) mod 4 = 0 \<longleftrightarrow> y mod 4 = 0" by simp
  have "(y + (- 19) * 100) mod 100 = y mod 100" by (rule mod_mult_self1)
  then show "(y - 1900) mod 100 = 0 \<longleftrightarrow> y mod 100 = 0" by simp
  have "(y + (- 4) * 400) mod 400 = y mod 400" by (rule mod_mult_self1)
  then show "(y - 1600) mod 400 = 0 \<longleftrightarrow> y mod 400 = 0" by simp
qed

lemma DayFromYear_Suc: "DayFromYear (y + 1) = DayFromYear y + DaysInYear y"
proof -
  have a: "(y - 1968) div 4 = (if y mod 4 = 0 then (y - 1969) div 4 + 1 else (y - 1969) div 4)"
    using div_next [of 4 "y - 1969"] mod_shift(1) [of y] by simp
  have b: "(y - 1900) div 100 = (if y mod 100 = 0 then (y - 1901) div 100 + 1 else (y - 1901) div 100)"
    using div_next [of 100 "y - 1901"] mod_shift(2) [of y] by simp
  have c: "(y - 1600) div 400 = (if y mod 400 = 0 then (y - 1601) div 400 + 1 else (y - 1601) div 400)"
    using div_next [of 400 "y - 1601"] mod_shift(3) [of y] by simp
  have d: "y mod 100 = 0 \<Longrightarrow> y mod 4 = 0"
    using dvd_trans [of 4 100 y] by (simp add: mod_eq_0_iff_dvd)
  have e: "y mod 400 = 0 \<Longrightarrow> y mod 100 = 0"
    using dvd_trans [of 100 400 y] by (simp add: mod_eq_0_iff_dvd)
  show ?thesis
    unfolding DayFromYear_def DaysInYear_def using d e by (simp add: a b c)
qed


lemma DaysInYear_pos: "365 \<le> DaysInYear y" "DaysInYear y \<le> 366"
  by (simp_all add: DaysInYear_def)

text \<open>
  The year of a day is the largest year whose first day is not after the given day. It is
  found by walking from 1970, upwards for a day on or after the epoch and downwards for a
  day before it.
\<close>

function year_up :: "int \<Rightarrow> int \<Rightarrow> int" where
  "year_up d y = (if DayFromYear (y + 1) \<le> d then year_up d (y + 1) else y)"
  by pat_completeness auto
termination
proof (relation "measure (\<lambda>(d, y). nat (d - DayFromYear y))")
  show "wf (measure (\<lambda>(d, y). nat (d - DayFromYear y)))" by simp
next
  fix d y :: int
  assume "DayFromYear (y + 1) \<le> d"
  then show "((d, y + 1), (d, y)) \<in> measure (\<lambda>(d, y). nat (d - DayFromYear y))"
    using DayFromYear_Suc [of y] DaysInYear_pos(1) [of y] by simp
qed

function year_down :: "int \<Rightarrow> int \<Rightarrow> int" where
  "year_down d y = (if d < DayFromYear y then year_down d (y - 1) else y)"
  by pat_completeness auto
termination
proof (relation "measure (\<lambda>(d, y). nat (DayFromYear y - d))")
  show "wf (measure (\<lambda>(d, y). nat (DayFromYear y - d)))" by simp
next
  fix d y :: int
  assume "d < DayFromYear y"
  then show "((d, y - 1), (d, y)) \<in> measure (\<lambda>(d, y). nat (DayFromYear y - d))"
    using DayFromYear_Suc [of "y - 1"] DaysInYear_pos(1) [of "y - 1"] by simp
qed

declare year_up.simps [simp del] year_down.simps [simp del]

definition year_of_day :: "int \<Rightarrow> int" where
  "year_of_day d = (if 0 \<le> d then year_up d 1970 else year_down d 1969)"

definition day_within_year :: "int \<Rightarrow> int" where
  "day_within_year d = d - DayFromYear (year_of_day d)"

definition in_leap_year :: "int \<Rightarrow> int" where
  "in_leap_year d = (if DaysInYear (year_of_day d) = 365 then 0 else 1)"

definition month_of_day :: "int \<Rightarrow> int" where
  "month_of_day d =
     (let w = day_within_year d; l = in_leap_year d
      in if w < 31 then 0
         else if w < 59 + l then 1
         else if w < 90 + l then 2
         else if w < 120 + l then 3
         else if w < 151 + l then 4
         else if w < 181 + l then 5
         else if w < 212 + l then 6
         else if w < 243 + l then 7
         else if w < 273 + l then 8
         else if w < 304 + l then 9
         else if w < 334 + l then 10
         else 11)"

definition firstDayOfMonth :: "int \<Rightarrow> int \<Rightarrow> int" where
  "firstDayOfMonth m l =
     (if m = 0 then 0
      else if m = 1 then 31
      else if m = 2 then 59 + l
      else if m = 3 then 90 + l
      else if m = 4 then 120 + l
      else if m = 5 then 151 + l
      else if m = 6 then 181 + l
      else if m = 7 then 212 + l
      else if m = 8 then 243 + l
      else if m = 9 then 273 + l
      else if m = 10 then 304 + l
      else 334 + l)"

definition date_of_day :: "int \<Rightarrow> int" where
  "date_of_day d = day_within_year d - firstDayOfMonth (month_of_day d) (in_leap_year d) + 1"

text \<open>
  The functions of the specification on time values. \<open>MakeDay\<close> gives the day number of a
  year, a month counted from 0 that may lie outside the year, and a day of the month that
  may lie outside the month. It is computed for every year, as the engines do; the
  specification lets it be \<^verbatim>\<open>NaN\<close> when the month is outside the range of time
  values, which \<open>TimeClip\<close> bounds below.
\<close>

definition YearFromTime :: "int \<Rightarrow> int" where
  "YearFromTime t = year_of_day (Day t)"

definition MonthFromTime :: "int \<Rightarrow> int" where
  "MonthFromTime t = month_of_day (Day t)"

definition DateFromTime :: "int \<Rightarrow> int" where
  "DateFromTime t = date_of_day (Day t)"






text \<open>
  The time zone of the browser is a parameter: the offset of local time from universal
  time in milliseconds, at a universal time (\<^verbatim>\<open>LocalTZA(t, true)\<close> of the specification)
  and at a local time (\<^verbatim>\<open>LocalTZA(t, false)\<close>; a local time that a transition skips or
  repeats is read with the offset before the transition).
\<close>

record zone =
  offset_at_utc :: "int \<Rightarrow> int"
  offset_at_local :: "int \<Rightarrow> int"

definition LocalTZA :: "zone \<Rightarrow> int \<Rightarrow> bool \<Rightarrow> int" where
  "LocalTZA z t isUTC = (if isUTC then offset_at_utc z t else offset_at_local z t)"

definition LocalTime :: "zone \<Rightarrow> int \<Rightarrow> int" where
  "LocalTime z t = t + LocalTZA z t True"


text \<open>
  The getters of a valid \<^verbatim>\<open>Date\<close> with time value \<open>t\<close> (the getters of an invalid date
  give \<^verbatim>\<open>NaN\<close>, and every function below gives an invalid date for an invalid date),
  and the setters that \<^verbatim>\<open>date-fns\<close> calls.
\<close>

definition getFullYear :: "zone \<Rightarrow> int \<Rightarrow> int" where
  "getFullYear z t = YearFromTime (LocalTime z t)"

definition getMonth :: "zone \<Rightarrow> int \<Rightarrow> int" where
  "getMonth z t = MonthFromTime (LocalTime z t)"

definition getDate :: "zone \<Rightarrow> int \<Rightarrow> int" where
  "getDate z t = DateFromTime (LocalTime z t)"
















subsection \<open>Formatting a day as \<^verbatim>\<open>yyyy-MM-dd\<close>\<close>

text \<open>
  \<^verbatim>\<open>format(day, "yyyy-MM-dd")\<close> throws a \<^verbatim>\<open>RangeError\<close> for an invalid date.
  Otherwise it writes the local year of the era (year 0 and before count back from 1), the
  month from 1 and the day of the month, each padded with zeros to its width, as
  \<^verbatim>\<open>addLeadingZeros\<close> of the library does.
\<close>

definition digit :: "nat \<Rightarrow> char" where
  "digit n = ''0123456789'' ! (n mod 10)"

fun toString :: "nat \<Rightarrow> string" where
  "toString n = (if n < 10 then [digit n] else toString (n div 10) @ [digit n])"

definition addLeadingZeros :: "int \<Rightarrow> nat \<Rightarrow> string" where
  "addLeadingZeros number targetLength =
     (let sign = (if number < 0 then ''-'' else []);
          output = toString (nat \<bar>number\<bar>)
      in sign @ replicate (targetLength - length output) CHR ''0'' @ output)"

fun format_yyyy_MM_dd :: "zone \<Rightarrow> Date \<Rightarrow> error + string" where
  "format_yyyy_MM_dd z None = Inl RangeError"
| "format_yyyy_MM_dd z (Some t) =
     (let signedYear = getFullYear z t;
          year = (if signedYear > 0 then signedYear else 1 - signedYear)
      in Inr (addLeadingZeros year 4 @ ''-'' @ addLeadingZeros (getMonth z t + 1) 2 @ ''-''
              @ addLeadingZeros (getDate z t) 2))"

subsection \<open>Colour of a day cell\<close>

text \<open>
  \<^verbatim>\<open>getDayColor\<close> runs while the page renders, after the table of daily totals has
  been computed; an exception of that pass ends the rendering. A date string that names an
  inherited property finds a value that is not a bucket, whose \<^verbatim>\<open>ingresos\<close> and
  \<^verbatim>\<open>gastos\<close> are \<^verbatim>\<open>undefined\<close> or \<^verbatim>\<open>NaN\<close>, so that the balance is
  \<^verbatim>\<open>NaN\<close>.
\<close>

definition colorOfBalance :: "jsnum \<Rightarrow> string" where
  "colorOfBalance b =
     (if js_less (Num 0) b then ''bg-green-50 border-green-200''
      else if js_less b (Num 0) then ''bg-red-50 border-red-200''
      else ''bg-yellow-50 border-yellow-200'')"

definition getDayColor :: "zone \<Rightarrow> Entry list \<Rightarrow> Date \<Rightarrow> error + string" where
  "getDayColor z es day =
     (case calendarDailyTotals es of
        Inl err \<Rightarrow> Inl err
      | Inr totalsByDate \<Rightarrow>
          (case format_yyyy_MM_dd z day of
             Inl err \<Rightarrow> Inl err
           | Inr dateStr \<Rightarrow>
               (case obj_lookup totalsByDate dateStr of
                  Absent \<Rightarrow> Inr ''bg-white''
                | Inherited \<Rightarrow> Inr (colorOfBalance NaN)
                | Own dayData \<Rightarrow>
                    Inr (colorOfBalance (fsub (cal_ingresos dayData) (cal_gastos dayData))))))"

subsection \<open>A worked scenario\<close>

text \<open>
  Three entries on two days: an expense of 50 and an income of 200 on 5 January 2024, and
  an expense of 30 on the next day. The time value 1704456000000 is noon of 5 January 2024
  in universal time.
\<close>

definition scenario :: "Entry list" where
  "scenario =
     [\<lparr> id' = ''1704412800000'', type' = gasto, category = ''Carne'', amount = Num 50,
        date = ''2024-01-05'', description = Some [] \<rparr>,
      \<lparr> id' = ''1704412800001'', type' = ingreso, category = ''Ventas'', amount = Num 200,
        date = ''2024-01-05'', description = Some [] \<rparr>,
      \<lparr> id' = ''1704499200000'', type' = gasto, category = ''Gas'', amount = Num 30,
        date = ''2024-01-06'', description = Some [] \<rparr>]"

text \<open>A large amount: twice this number is beyond the largest double.\<close>

definition huge :: rat where
  "huge = 2 ^ 1023"

text \<open>
  Two time zones: universal time, and the offsets of \<^verbatim>\<open>Pacific/Apia\<close> around the end
  of 2011. There the clocks went from the end of Thursday 29 December, ten hours behind
  universal time, to the start of Saturday 31 December, fourteen hours ahead of it, at the
  time value 1325239200000; the local day 30 December 2011 does not exist.
\<close>

definition UTC_zone :: zone where
  "UTC_zone = \<lparr> offset_at_utc = (\<lambda>t. 0), offset_at_local = (\<lambda>t. 0) \<rparr>"


subsection \<open>Notions used in the statements\<close>

text \<open>
  The words of the specification for a calendar day: the entries of the day are those whose
  date string is the formatted day, and the net balance of the day is their income sum less
  their expense sum, both added up from left to right as the source does.
\<close>

definition entriesOn :: "zone \<Rightarrow> Entry list \<Rightarrow> Date \<Rightarrow> Entry list" where
  "entriesOn z es day = filter (\<lambda>e. format_yyyy_MM_dd z day = Inr (date e)) es"

definition netBalanceOn :: "zone \<Rightarrow> Entry list \<Rightarrow> Date \<Rightarrow> jsnum" where
  "netBalanceOn z es day =
     fsub (reduce_amount (filter (\<lambda>e. type' e = ingreso) (entriesOn z es day)))
          (reduce_amount (filter (\<lambda>e. type' e = gasto) (entriesOn z es day)))"

text \<open>
  The value of a finite number, and the amounts for which every addition of a pass is
  exact: whole, not negative, and with a sum of at most \<open>2\<^sup>5\<^sup>3\<close>.
\<close>

fun finite_value :: "jsnum \<Rightarrow> rat" where
  "finite_value (Num x) = x"
| "finite_value v = 0"

fun whole_number :: "jsnum \<Rightarrow> bool" where
  "whole_number (Num x) \<longleftrightarrow> 0 \<le> x \<and> of_int \<lfloor>x\<rfloor> = x"
| "whole_number v \<longleftrightarrow> False"

definition whole_amounts :: "Entry list \<Rightarrow> bool" where
  "whole_amounts es \<longleftrightarrow>
     list_all (\<lambda>e. whole_number (amount e)) es \<and>
     sum_list (map (\<lambda>e. finite_value (amount e)) es) \<le> 2 ^ 53"

text \<open>Keys that are not names of inherited properties.\<close>

definition plain_names :: "string list \<Rightarrow> bool" where
  "plain_names ks \<longleftrightarrow> list_all (\<lambda>k. k \<notin> set inherited_names) ks"

text \<open>The sum of the amounts of the entries of one kind, in exact arithmetic.\<close>

definition amount_sum :: "entry_type \<Rightarrow> Entry list \<Rightarrow> rat" where
  "amount_sum k es = sum_list (map (\<lambda>e. finite_value (amount e)) (filter (\<lambda>e. type' e = k) es))"

text \<open>
  The sum of a list of values in exact arithmetic; there is none when a value is not a
  finite number.
\<close>

fun exact_sum :: "jsnum list \<Rightarrow> rat option" where
  "exact_sum [] = Some 0"
| "exact_sum (Num x # vs) = map_option (\<lambda>s. x + s) (exact_sum vs)"
| "exact_sum (v # vs) = None"

text \<open>Adding a list of numbers from left to right in doubles, as \<^verbatim>\<open>reduce\<close> does.\<close>

definition sum_doubles :: "jsnum list \<Rightarrow> jsnum" where
  "sum_doubles xs = foldl fadd (Num 0) xs"

text \<open>What the calendar's table holds under a date string, in terms of the entry list.\<close>

definition bucket_of :: "Entry list \<Rightarrow> string \<Rightarrow> DayData" where
  "bucket_of es d =
     \<lparr> cal_ingresos = reduce_amount (filter (\<lambda>e. date e = d \<and> type' e = ingreso) es),
       cal_gastos = reduce_amount (filter (\<lambda>e. date e = d \<and> type' e = gasto) es),
       cal_entries = filter (\<lambda>e. date e = d) es \<rparr>"

text \<open>A bucket of the calendar's table without its entries is a bucket of the dashboard's.\<close>

definition withoutEntries :: "DayData \<Rightarrow> DayTotals" where
  "withoutEntries b = \<lparr> day_ingresos = cal_ingresos b, day_gastos = cal_gastos b \<rparr>"






section \<open>Properties of the arithmetic of doubles\<close>

lemma roundTiesToEven_of_int: "roundTiesToEven (of_int z) = z"
  by (simp add: roundTiesToEven_def)

lemma scale_up_integral:
  "m \<in> \<int> \<Longrightarrow>
   fst (scale_up m e) \<in> \<int> \<and> fst (scale_up m e) * 2 powi snd (scale_up m e) = m * 2 powi e"
proof (induction m e rule: scale_up.induct)
  case (1 m e)
  show ?case
  proof (cases "m \<noteq> 0 \<and> \<bar>m\<bar> < 2 ^ 52 \<and> - 1074 < e")
    case True
    have step: "scale_up m e = scale_up (m * 2) (e - 1)"
      using True by (subst scale_up.simps) simp
    have "m * 2 \<in> \<int>" using "1.prems" by (simp add: Ints_mult)
    from "1.IH" [OF True this]
    have ih: "fst (scale_up (m * 2) (e - 1)) \<in> \<int>"
      "fst (scale_up (m * 2) (e - 1)) * 2 powi snd (scale_up (m * 2) (e - 1))
         = m * 2 * 2 powi (e - 1)"
      by simp_all
    have "(2::rat) * 2 powi (e - 1) = 2 powi e"
      by (simp add: power_int_diff)
    then have "m * 2 * 2 powi (e - 1) = m * 2 powi e" by (simp add: mult.assoc)
    with ih show ?thesis unfolding step by simp
  next
    case False
    have "scale_up m e = (m, e)" using False by (subst scale_up.simps) auto
    with "1.prems" show ?thesis by simp
  qed
qed

lemma round_finite_scaled:
  assumes "scale_down x 0 = (m, e)" "m \<in> \<int>"
  shows "round_finite x = m * 2 powi e"
proof -
  from scale_up_integral [OF assms(2), of e]
  have i: "fst (scale_up m e) \<in> \<int>"
    and v: "fst (scale_up m e) * 2 powi snd (scale_up m e) = m * 2 powi e" by simp_all
  from i obtain z where z: "fst (scale_up m e) = of_int z" by (rule Ints_cases)
  have "round_finite x = of_int (roundTiesToEven (fst (scale_up m e))) * 2 powi snd (scale_up m e)"
    by (simp add: round_finite_def assms(1) split: prod.split)
  also have "\<dots> = fst (scale_up m e) * 2 powi snd (scale_up m e)"
    by (simp add: z roundTiesToEven_of_int)
  finally show ?thesis using v by simp
qed

text \<open>Every integer of magnitude at most \<open>2\<^sup>5\<^sup>3\<close> is a double.\<close>

lemma round_finite_exact:
  assumes "x \<in> \<int>" "\<bar>x\<bar> \<le> 2 ^ 53"
  shows "round_finite x = x"
proof (cases "\<bar>x\<bar> = 2 ^ 53")
  case True
  have half: "\<bar>x / 2\<bar> = 2 ^ 52" using True by simp
  have "scale_down x 0 = scale_down (x / 2) 1"
    using True by (subst scale_down.simps) simp
  also have "\<dots> = (x / 2, 1)"
    using half by (subst scale_down.simps) simp
  finally have sd: "scale_down x 0 = (x / 2, 1)" .
  have "x = 2 ^ 53 \<or> x = - (2 ^ 53)" using True by (simp add: abs_if split: if_splits)
  then have "x / 2 \<in> \<int>" by auto
  from round_finite_scaled [OF sd this] show ?thesis by simp
next
  case False
  with assms(2) have "\<not> 2 ^ 53 \<le> \<bar>x\<bar>" by simp
  then have sd: "scale_down x 0 = (x, 0)" by (subst scale_down.simps) simp
  from round_finite_scaled [OF sd assms(1)] show ?thesis by simp
qed

text \<open>
  Rounding a number below \<open>2\<^sup>5\<^sup>3\<close> in magnitude whose significand is reached by \<open>k\<close>
  doublings: the loop of \<open>scale_up\<close> in one step.
\<close>

lemma scale_up_jump:
  "2 ^ 52 \<le> \<bar>m\<bar> * 2 ^ k \<Longrightarrow> \<bar>m\<bar> * 2 ^ k < 2 ^ 53 \<Longrightarrow> int k \<le> e + 1074 \<Longrightarrow>
   scale_up m e = (m * 2 ^ k, e - int k)"
proof (induction k arbitrary: m e)
  case 0
  then have "\<not> (m \<noteq> 0 \<and> \<bar>m\<bar> < 2 ^ 52 \<and> - 1074 < e)" by simp
  then have "scale_up m e = (m, e)" by (subst scale_up.simps) auto
  then show ?case by simp
next
  case (Suc k)
  have pos: "(1::rat) \<le> 2 ^ k" by simp
  have "\<bar>m\<bar> * 2 \<le> \<bar>m\<bar> * 2 * 2 ^ k"
    using mult_left_mono [OF pos, of "\<bar>m\<bar> * 2"] by simp
  then have small: "\<bar>m\<bar> < 2 ^ 52" using Suc.prems(2) by simp
  have "m \<noteq> 0" using Suc.prems(1) by auto
  then have step: "scale_up m e = scale_up (m * 2) (e - 1)"
    using small Suc.prems(3) by (subst scale_up.simps) simp
  have "scale_up (m * 2) (e - 1) = (m * 2 * 2 ^ k, e - 1 - int k)"
    using Suc.prems by (intro Suc.IH) (simp_all add: abs_mult mult.assoc)
  then show ?case unfolding step by (simp add: mult.assoc)
qed

lemma round_finite_eval:
  assumes "2 ^ 52 \<le> \<bar>x\<bar> * 2 ^ k" "\<bar>x\<bar> * 2 ^ k < 2 ^ 53" "k \<le> 1074"
  shows "round_finite x = of_int (roundTiesToEven (x * 2 ^ k)) / 2 ^ k"
proof -
  have pos: "(1::rat) \<le> 2 ^ k" by simp
  have "\<bar>x\<bar> \<le> \<bar>x\<bar> * 2 ^ k" using mult_left_mono [OF pos, of "\<bar>x\<bar>"] by simp
  then have "\<not> 2 ^ 53 \<le> \<bar>x\<bar>" using assms(2) by simp
  then have sd: "scale_down x 0 = (x, 0)" by (subst scale_down.simps) simp
  have su: "scale_up x 0 = (x * 2 ^ k, - int k)"
    using scale_up_jump [OF assms(1,2), of 0] assms(3) by simp
  show ?thesis
    by (simp add: round_finite_def sd su power_int_minus field_simps)
qed


lemma roundTiesToEven_numeral: "roundTiesToEven (numeral n) = numeral n"
  using roundTiesToEven_of_int [of "numeral n"] by simp

text \<open>A rounded value below \<open>2\<^sup>1\<^sup>0\<^sup>2\<^sup>4\<close> in magnitude is the result; there is no overflow.\<close>

lemma round_double_Num:
  "\<bar>round_finite x\<bar> < 2 ^ 1024 \<Longrightarrow> round_double x = Num (round_finite x)"
  by (simp add: round_double_def Let_def abs_less_iff)

lemma round_double_exact:
  assumes "x \<in> \<int>" "\<bar>x\<bar> \<le> 2 ^ 53"
  shows "round_double x = Num x"
proof -
  have "(2::rat) ^ 53 < 2 ^ 1024" by simp
  with assms(2) have "\<bar>x\<bar> < 2 ^ 1024" by (rule le_less_trans)
  then show ?thesis using round_finite_exact [OF assms] by (simp add: round_double_Num)
qed

lemma round_double_eval:
  assumes "2 ^ 52 \<le> \<bar>x\<bar> * 2 ^ k" "\<bar>x\<bar> * 2 ^ k < 2 ^ 53" "k \<le> 1074"
    and "\<bar>of_int (roundTiesToEven (x * 2 ^ k)) / 2 ^ k\<bar> < (2::rat) ^ 1024"
  shows "round_double x = Num (of_int (roundTiesToEven (x * 2 ^ k)) / 2 ^ k)"
  using assms(4) round_finite_eval [OF assms(1-3)] by (simp add: round_double_Num)

lemma whole_number_iff: "whole_number v \<longleftrightarrow> (\<exists>x. v = Num x \<and> x \<in> \<nat>)"
proof (cases v)
  case (Num x)
  have "x \<in> \<nat> \<longleftrightarrow> 0 \<le> x \<and> of_int \<lfloor>x\<rfloor> = x"
  proof
    assume "x \<in> \<nat>"
    then obtain n where "x = of_nat n" by (rule Nats_cases)
    then show "0 \<le> x \<and> of_int \<lfloor>x\<rfloor> = x" by simp
  next
    assume a: "0 \<le> x \<and> of_int \<lfloor>x\<rfloor> = x"
    then have "0 \<le> \<lfloor>x\<rfloor>" by simp
    then have "of_int \<lfloor>x\<rfloor> = (of_nat (nat \<lfloor>x\<rfloor>) :: rat)" by simp
    with a have "x = of_nat (nat \<lfloor>x\<rfloor>)" by simp
    then show "x \<in> \<nat>" by (metis of_nat_in_Nats)
  qed
  with Num show ?thesis by simp
qed simp_all

lemma whole_number_value: "whole_number v \<Longrightarrow> v = Num (finite_value v) \<and> finite_value v \<in> \<nat>"
  by (auto simp: whole_number_iff)

lemma whole_number_Num: "x \<in> \<nat> \<Longrightarrow> whole_number (Num x)"
  by (simp add: whole_number_iff)

lemma Nats_rat_nonneg: "x \<in> \<nat> \<Longrightarrow> 0 \<le> x" for x :: rat
  by (auto elim: Nats_cases)

text \<open>Adding and subtracting whole numbers within \<open>2\<^sup>5\<^sup>3\<close> is exact.\<close>

lemma fadd_exact:
  assumes "x \<in> \<nat>" "y \<in> \<nat>" "x + y \<le> 2 ^ 53"
  shows "fadd (Num x) (Num y) = Num (x + y)"
proof -
  have "x + y \<in> \<nat>" using assms(1,2) by (rule Nats_add)
  then have "x + y \<in> \<int>" "0 \<le> x + y"
    using Nats_subset_Ints Nats_rat_nonneg by auto
  then show ?thesis using assms(3) by (simp add: fadd.simps(1) round_double_exact)
qed

lemma fsub_exact:
  assumes "x \<in> \<nat>" "y \<in> \<nat>" "x \<le> 2 ^ 53" "y \<le> 2 ^ 53"
  shows "fsub (Num x) (Num y) = Num (x - y)"
proof -
  have "x \<in> \<int>" "y \<in> \<int>" using assms(1,2) Nats_subset_Ints by auto
  then have i: "x + - y \<in> \<int>" by (simp add: Ints_diff)
  have "0 \<le> x" "0 \<le> y" using assms(1,2) by (simp_all add: Nats_rat_nonneg)
  then have "\<bar>x + - y\<bar> \<le> 2 ^ 53" using assms(3,4) by (simp add: abs_le_iff)
  with i have "round_double (x + - y) = Num (x + - y)" by (rule round_double_exact)
  then show ?thesis by (simp add: fsub_def fadd.simps(1))
qed

text \<open>
  The doubles nearest to 0.1, 0.2 and 0.3 are \<open>3602879701896397 / 2\<^sup>5\<^sup>5\<close>,
  \<open>3602879701896397 / 2\<^sup>5\<^sup>4\<close> and \<open>5404319552844595 / 2\<^sup>5\<^sup>4\<close>. Added from left to right
  they give 0.6000000000000001; 0.2 and 0.3 give 0.5, and 0.1 and 0.5 give 0.6.
\<close>

lemma tenth_is_double:
  "fadd (Num 0) (Num (3602879701896397 / 36028797018963968))
   = Num (3602879701896397 / 36028797018963968)"
  unfolding fadd.simps
  by (subst round_double_eval [where k = 56]) (simp_all add: roundTiesToEven_numeral)

lemma two_tenths_is_double:
  "fadd (Num 0) (Num (3602879701896397 / 18014398509481984))
   = Num (3602879701896397 / 18014398509481984)"
  unfolding fadd.simps
  by (subst round_double_eval [where k = 55]) (simp_all add: roundTiesToEven_numeral)

lemma tenth_plus_two_tenths:
  "fadd (Num (3602879701896397 / 36028797018963968)) (Num (3602879701896397 / 18014398509481984))
   = Num (1351079888211149 / 4503599627370496)"
proof -
  have r: "roundTiesToEven (10808639105689191 / 2) = 5404319552844596" by code_simp
  show ?thesis
    unfolding fadd.simps
    by (subst round_double_eval [where k = 54]) (simp_all add: r)
qed

lemma plus_three_tenths:
  "fadd (Num (1351079888211149 / 4503599627370496)) (Num (5404319552844595 / 18014398509481984))
   = Num (1351079888211149 / 2251799813685248)"
proof -
  have r: "roundTiesToEven (10808639105689191 / 2) = 5404319552844596" by code_simp
  show ?thesis
    unfolding fadd.simps
    by (subst round_double_eval [where k = 53]) (simp_all add: r)
qed

lemma two_tenths_plus_three_tenths:
  "fadd (Num (3602879701896397 / 18014398509481984)) (Num (5404319552844595 / 18014398509481984))
   = Num (1 / 2)"
  unfolding fadd.simps
  by (subst round_double_eval [where k = 53]) (simp_all add: roundTiesToEven_numeral)

lemma tenth_plus_half:
  "fadd (Num (3602879701896397 / 36028797018963968)) (Num (1 / 2))
   = Num (5404319552844595 / 9007199254740992)"
proof -
  have r: "roundTiesToEven (21617278211378381 / 4) = 5404319552844595" by code_simp
  show ?thesis
    unfolding fadd.simps
    by (subst round_double_eval [where k = 53]) (simp_all add: r)
qed

lemma half_is_double: "fadd (Num 0) (Num (1 / 2)) = Num (1 / 2)"
  unfolding fadd.simps
  by (subst round_double_eval [where k = 53]) (simp_all add: roundTiesToEven_numeral)

text \<open>
  Adding 1 to \<open>2\<^sup>5\<^sup>3\<close> is a tie between two doubles and rounds back to \<open>2\<^sup>5\<^sup>3\<close>, and so
  does taking a half from it.
\<close>

lemma two_53_plus_one: "fadd (Num 9007199254740992) (Num 1) = Num 9007199254740992"
proof -
  have r: "roundTiesToEven (9007199254740993 / 2) = 4503599627370496" by code_simp
  have "round_finite 9007199254740993 = 9007199254740992"
  proof -
    have "scale_down 9007199254740993 0 = scale_down (9007199254740993 / 2) 1"
      by (subst scale_down.simps) simp
    also have "\<dots> = (9007199254740993 / 2, 1)" by (subst scale_down.simps) simp
    finally have sd: "scale_down 9007199254740993 0 = (9007199254740993 / 2, 1)" .
    have su: "scale_up (9007199254740993 / 2) 1 = (9007199254740993 / 2, 1)"
      by (subst scale_up.simps) simp
    show ?thesis by (simp add: round_finite_def sd su r)
  qed
  then show ?thesis by (simp add: fadd.simps(1) round_double_Num)
qed

lemma two_53_plus_two: "fadd (Num 9007199254740992) (Num 2) = Num 9007199254740994"
proof -
  have "round_finite 9007199254740994 = 9007199254740994"
  proof -
    have "scale_down 9007199254740994 0 = scale_down (9007199254740994 / 2) 1"
      by (subst scale_down.simps) simp
    also have "\<dots> = (4503599627370497, 1)" by (subst scale_down.simps) simp
    finally have sd: "scale_down 9007199254740994 0 = (4503599627370497, 1)" .
    have su: "scale_up 4503599627370497 1 = (4503599627370497, 1)"
      by (subst scale_up.simps) simp
    show ?thesis by (simp add: round_finite_def sd su roundTiesToEven_numeral)
  qed
  then show ?thesis by (simp add: fadd.simps(1) round_double_Num)
qed

lemma two_53_minus_half: "fsub (Num 9007199254740992) (Num (1 / 2)) = Num 9007199254740992"
proof -
  have r: "roundTiesToEven (18014398509481983 / 2) = 9007199254740992" by code_simp
  have "round_double (9007199254740992 + - (1 / 2)) = Num 9007199254740992"
    by (subst round_double_eval [where k = 0]) (simp_all add: r)
  then show ?thesis by (simp add: fsub_def fadd.simps(1))
qed

text \<open>The number \<open>2\<^sup>1\<^sup>0\<^sup>2\<^sup>3\<close> is a double, and two of it add up to infinity.\<close>

lemma scale_down_pow2:
  "2 ^ 53 \<le> \<bar>m\<bar> \<Longrightarrow> scale_down (m * 2 ^ k) e = scale_down m (e + int k)"
proof (induction k arbitrary: e)
  case 0
  then show ?case by simp
next
  case (Suc k)
  have p: "(1::rat) \<le> 2 ^ Suc k" by (rule one_le_power) simp
  have "\<bar>m\<bar> \<le> \<bar>m\<bar> * 2 ^ Suc k" using mult_left_mono [OF p, of "\<bar>m\<bar>"] by simp
  with Suc.prems have "2 ^ 53 \<le> \<bar>m * 2 ^ Suc k\<bar>" by (simp add: abs_mult)
  then have "scale_down (m * 2 ^ Suc k) e = scale_down (m * 2 ^ Suc k / 2) (e + 1)"
    by (subst scale_down.simps) simp
  also have "m * 2 ^ Suc k / 2 = m * 2 ^ k" by simp
  also have "scale_down (m * 2 ^ k) (e + 1) = scale_down m (e + 1 + int k)"
    using Suc.prems by (rule Suc.IH)
  finally show ?case by (simp add: algebra_simps)
qed

lemma round_finite_pow2: "round_finite (9007199254740992 * 2 ^ k) = 9007199254740992 * 2 ^ k"
proof -
  have "scale_down (9007199254740992 * 2 ^ k) 0 = scale_down 9007199254740992 (int k)"
    using scale_down_pow2 [of 9007199254740992 k 0] by simp
  also have "\<dots> = scale_down (9007199254740992 / 2) (int k + 1)"
    by (subst scale_down.simps) simp
  also have "\<dots> = (4503599627370496, int k + 1)" by (subst scale_down.simps) simp
  finally have d: "scale_down (9007199254740992 * 2 ^ k) 0 = (4503599627370496, int k + 1)" .
  have u: "scale_up 4503599627370496 (int k + 1) = (4503599627370496, int k + 1)"
    by (subst scale_up.simps) simp
  have "round_finite (9007199254740992 * 2 ^ k) = 4503599627370496 * 2 powi (int k + 1)"
    by (simp add: round_finite_def d u roundTiesToEven_numeral)
  also have "\<dots> = 9007199254740992 * 2 ^ k" by (simp add: power_int_add)
  finally show ?thesis .
qed

lemma huge_is_double: "fadd (Num 0) (Num huge) = Num huge"
proof -
  have "round_finite (2 ^ 1023) = 2 ^ 1023" using round_finite_pow2 [of 970] by simp
  then show ?thesis by (simp add: fadd.simps(1) round_double_def huge_def)
qed

lemma overflow: "fadd (Num huge) (Num huge) = PosInf"
proof -
  have "round_finite (2 ^ 1023 + 2 ^ 1023) = 2 ^ 1024"
    using round_finite_pow2 [of 971] by simp
  then show ?thesis by (simp add: fadd.simps(1) round_double_def huge_def)
qed

section \<open>Properties of the aggregation\<close>

lemma plain_names_map:
  "plain_names (map f es) \<longleftrightarrow> (\<forall>e \<in> set es. f e \<notin> set inherited_names)"
  by (simp add: plain_names_def list_all_iff)

lemma foldl_fadd_amount: "foldl (\<lambda>sum e. fadd sum (amount e)) a xs = foldl fadd a (map amount xs)"
  by (induction xs arbitrary: a) simp_all

lemma reduce_amount_sum_doubles: "reduce_amount xs = sum_doubles (map amount xs)"
  by (simp add: reduce_amount_def sum_doubles_def foldl_fadd_amount)

lemma reduce_amount_snoc: "reduce_amount (xs @ [e]) = fadd (reduce_amount xs) (amount e)"
  by (simp add: reduce_amount_def)

lemma whole_number_nonneg: "whole_number v \<Longrightarrow> 0 \<le> finite_value v"
  by (cases v) simp_all

lemma sum_list_whole_nonneg:
  "\<forall>v \<in> set vs. whole_number v \<Longrightarrow> 0 \<le> sum_list (map finite_value vs)"
  by (induction vs) (auto simp: whole_number_nonneg)

lemma sum_list_whole_Nats:
  "\<forall>v \<in> set vs. whole_number v \<Longrightarrow> sum_list (map finite_value vs) \<in> \<nat>"
  by (induction vs) (auto dest: whole_number_value intro: Nats_add)

lemma foldl_fadd_exact:
  "\<forall>v \<in> set vs. whole_number v \<Longrightarrow> a \<in> \<nat> \<Longrightarrow>
   a + sum_list (map finite_value vs) \<le> 2 ^ 53 \<Longrightarrow>
   foldl fadd (Num a) vs = Num (a + sum_list (map finite_value vs))"
proof (induction vs arbitrary: a)
  case Nil
  then show ?case by simp
next
  case (Cons v vs)
  have v: "whole_number v" and vs: "\<forall>y \<in> set vs. whole_number y" using Cons.prems(1) by simp_all
  obtain x where x: "v = Num x" "x \<in> \<nat>" using v by (auto simp: whole_number_iff)
  have "0 \<le> sum_list (map finite_value vs)" using vs by (rule sum_list_whole_nonneg)
  then have "a + x \<le> 2 ^ 53" using Cons.prems(3) x by simp
  with Cons.prems(2) x(2) have step: "fadd (Num a) (Num x) = Num (a + x)"
    by (rule fadd_exact)
  have "a + x \<in> \<nat>" using Cons.prems(2) x(2) by (rule Nats_add)
  moreover have "a + x + sum_list (map finite_value vs) \<le> 2 ^ 53"
    using Cons.prems(3) x by (simp add: add.assoc)
  ultimately have "foldl fadd (Num (a + x)) vs = Num (a + x + sum_list (map finite_value vs))"
    using vs Cons.IH by blast
  then show ?case using x by (simp add: step add.assoc)
qed

lemma sum_doubles_exact:
  "\<forall>v \<in> set vs. whole_number v \<Longrightarrow> sum_list (map finite_value vs) \<le> 2 ^ 53 \<Longrightarrow>
   sum_doubles vs = Num (sum_list (map finite_value vs))"
  using foldl_fadd_exact [of vs 0] by (simp add: sum_doubles_def)

lemma exact_sum_whole:
  "\<forall>v \<in> set vs. whole_number v \<Longrightarrow> exact_sum vs = Some (sum_list (map finite_value vs))"
proof (induction vs)
  case Nil
  then show ?case by simp
next
  case (Cons v vs)
  then obtain x where "v = Num x" by (auto simp: whole_number_iff)
  with Cons show ?case by simp
qed

lemma sum_list_filter_le:
  "\<forall>e \<in> set es. whole_number (amount e) \<Longrightarrow>
   sum_list (map (\<lambda>e. finite_value (amount e)) (filter P es))
     \<le> sum_list (map (\<lambda>e. finite_value (amount e)) es)"
  by (induction es) (auto simp: whole_number_nonneg add_increasing)

lemma whole_amounts_filter:
  assumes "whole_amounts es"
  shows "\<forall>v \<in> set (map amount (filter P es)). whole_number v"
    and "sum_list (map (\<lambda>e. finite_value (amount e)) (filter P es)) \<le> 2 ^ 53"
    and "sum_list (map (\<lambda>e. finite_value (amount e)) (filter P es)) \<in> \<nat>"
proof -
  from assms have n: "\<forall>e \<in> set es. whole_number (amount e)"
    and b: "sum_list (map (\<lambda>e. finite_value (amount e)) es) \<le> 2 ^ 53"
    by (simp_all add: whole_amounts_def list_all_iff)
  show f: "\<forall>v \<in> set (map amount (filter P es)). whole_number v" using n by auto
  show "sum_list (map (\<lambda>e. finite_value (amount e)) (filter P es)) \<le> 2 ^ 53"
    using sum_list_filter_le [OF n, of P] b by simp
  have "sum_list (map finite_value (map amount (filter P es))) \<in> \<nat>"
    using f by (rule sum_list_whole_Nats)
  then show "sum_list (map (\<lambda>e. finite_value (amount e)) (filter P es)) \<in> \<nat>"
    by (simp add: comp_def)
qed

lemma reduce_amount_exact:
  assumes "whole_amounts es"
  shows "reduce_amount (filter P es) = Num (sum_list (map (\<lambda>e. finite_value (amount e)) (filter P es)))"
proof -
  have "sum_list (map finite_value (map amount (filter P es))) \<le> 2 ^ 53"
    using whole_amounts_filter(2) [OF assms, of P] by (simp add: comp_def)
  with whole_amounts_filter(1) [OF assms, of P]
  have "sum_doubles (map amount (filter P es))
      = Num (sum_list (map finite_value (map amount (filter P es))))"
    by (rule sum_doubles_exact)
  then show ?thesis by (simp add: reduce_amount_sum_doubles comp_def)
qed

lemma totals_exact:
  assumes "whole_amounts es"
  shows "ingresos (totals es) = Num (amount_sum ingreso es)"
    and "gastos (totals es) = Num (amount_sum gasto es)"
    and "balance (totals es) = Num (amount_sum ingreso es - amount_sum gasto es)"
proof -
  show i: "ingresos (totals es) = Num (amount_sum ingreso es)"
    by (simp add: totals_def Let_def amount_sum_def reduce_amount_exact [OF assms])
  show g: "gastos (totals es) = Num (amount_sum gasto es)"
    by (simp add: totals_def Let_def amount_sum_def reduce_amount_exact [OF assms])
  have "balance (totals es) = fsub (ingresos (totals es)) (gastos (totals es))"
    by (simp add: totals_def Let_def)
  also have "\<dots> = Num (amount_sum ingreso es - amount_sum gasto es)"
    unfolding i g amount_sum_def
    using whole_amounts_filter(2,3) [OF assms] by (intro fsub_exact) simp_all
  finally show "balance (totals es) = Num (amount_sum ingreso es - amount_sum gasto es)" .
qed

text \<open>
  Writing a key changes the sum of a field over all buckets by the new value of the field
  less the old one (zero when the key is new).
\<close>

lemma sum_update:
  fixes g :: "'v \<Rightarrow> rat"
  shows "sum_list (map (\<lambda>p. g (snd p)) (AList.update k v al)) =
         sum_list (map (\<lambda>p. g (snd p)) al)
           - (case map_of al k of None \<Rightarrow> 0 | Some old \<Rightarrow> g old) + g v"
  by (induction al) auto

lemma set_alist_update: "set (AList.update k v al) \<subseteq> insert (k, v) (set al)"
  by (induction al) auto

lemma lookup_le_sum:
  fixes f :: "'v \<Rightarrow> jsnum"
  shows "\<forall>p \<in> set al. whole_number (f (snd p)) \<Longrightarrow>
         (case map_of al k of None \<Rightarrow> 0 | Some b \<Rightarrow> finite_value (f b))
           \<le> sum_list (map (\<lambda>p. finite_value (f (snd p))) al)"
proof (induction al)
  case Nil
  then show ?case by simp
next
  case (Cons p al)
  have "0 \<le> finite_value (f (snd p))" using Cons.prems by (simp add: whole_number_nonneg)
  moreover have "0 \<le> sum_list (map finite_value (map (\<lambda>p. f (snd p)) al))"
    using Cons.prems by (intro sum_list_whole_nonneg) auto
  then have "0 \<le> sum_list (map (\<lambda>p. finite_value (f (snd p))) al)" by (simp add: comp_def)
  moreover have "(case map_of al k of None \<Rightarrow> 0 | Some b \<Rightarrow> finite_value (f b))
      \<le> sum_list (map (\<lambda>p. finite_value (f (snd p))) al)"
    using Cons by simp
  ultimately show ?case by (cases p) auto
qed

lemma lookup_whole:
  fixes f :: "'v \<Rightarrow> jsnum"
  shows "\<forall>p \<in> set al. whole_number (f (snd p)) \<Longrightarrow>
         whole_number (case map_of al k of None \<Rightarrow> Num 0 | Some b \<Rightarrow> f b)"
  by (auto split: option.split dest!: map_of_SomeD)

lemma lookup_value:
  "finite_value (case map_of al k of None \<Rightarrow> Num 0 | Some b \<Rightarrow> f b)
   = (case map_of al k of None \<Rightarrow> 0 | Some b \<Rightarrow> finite_value (f b))"
  by (simp split: option.split)

text \<open>
  One step of a pass on a table whose values of the field \<open>f\<close> are whole: when the
  field of the written bucket is the old value plus a whole amount, and the sum of the
  field stays within \<open>2\<^sup>5\<^sup>3\<close>, the addition is exact; when the field of the written
  bucket is the old value, the sum of the field does not change.
\<close>

lemma update_bump:
  fixes f :: "'v \<Rightarrow> jsnum"
  assumes whole: "\<forall>p \<in> set al. whole_number (f (snd p))"
    and a: "whole_number a"
    and bound: "sum_list (map (\<lambda>p. finite_value (f (snd p))) al) + finite_value a \<le> 2 ^ 53"
    and v: "f v = fadd (case map_of al k of None \<Rightarrow> Num 0 | Some b \<Rightarrow> f b) a"
  shows "sum_list (map (\<lambda>p. finite_value (f (snd p))) (AList.update k v al))
           = sum_list (map (\<lambda>p. finite_value (f (snd p))) al) + finite_value a"
    and "\<forall>p \<in> set (AList.update k v al). whole_number (f (snd p))"
proof -
  let ?old = "case map_of al k of None \<Rightarrow> Num 0 | Some b \<Rightarrow> f b"
  have old: "whole_number ?old" using whole by (rule lookup_whole)
  then obtain x where x: "?old = Num x" "x \<in> \<nat>" by (auto simp: whole_number_iff)
  obtain y where y: "a = Num y" "y \<in> \<nat>" using a by (auto simp: whole_number_iff)
  have "finite_value ?old \<le> sum_list (map (\<lambda>p. finite_value (f (snd p))) al)"
    unfolding lookup_value using whole by (rule lookup_le_sum)
  then have "x + y \<le> 2 ^ 53" using bound x y by simp
  with x(2) y(2) have fv: "f v = Num (x + y)" unfolding v x(1) y(1) by (rule fadd_exact)
  have "x = (case map_of al k of None \<Rightarrow> 0 | Some b \<Rightarrow> finite_value (f b))"
    using x(1) lookup_value [where al = al and k = k and f = f] by simp
  then show "sum_list (map (\<lambda>p. finite_value (f (snd p))) (AList.update k v al))
          = sum_list (map (\<lambda>p. finite_value (f (snd p))) al) + finite_value a"
    by (simp add: sum_update [where g = "\<lambda>b. finite_value (f b)"] fv y)
  have "whole_number (f v)" unfolding fv using x(2) y(2) by (intro whole_number_Num Nats_add)
  then show "\<forall>p \<in> set (AList.update k v al). whole_number (f (snd p))"
    using whole set_alist_update [of k v al] by auto
qed

lemma update_keep:
  fixes f :: "'v \<Rightarrow> jsnum"
  assumes whole: "\<forall>p \<in> set al. whole_number (f (snd p))"
    and v: "f v = (case map_of al k of None \<Rightarrow> Num 0 | Some b \<Rightarrow> f b)"
  shows "sum_list (map (\<lambda>p. finite_value (f (snd p))) (AList.update k v al))
           = sum_list (map (\<lambda>p. finite_value (f (snd p))) al)"
    and "\<forall>p \<in> set (AList.update k v al). whole_number (f (snd p))"
proof -
  have "finite_value (f v) = (case map_of al k of None \<Rightarrow> 0 | Some b \<Rightarrow> finite_value (f b))"
    unfolding v by (rule lookup_value)
  then show "sum_list (map (\<lambda>p. finite_value (f (snd p))) (AList.update k v al))
          = sum_list (map (\<lambda>p. finite_value (f (snd p))) al)"
    by (simp add: sum_update [where g = "\<lambda>b. finite_value (f b)"])
  have "whole_number (f v)" unfolding v using whole by (rule lookup_whole)
  then show "\<forall>p \<in> set (AList.update k v al). whole_number (f (snd p))"
    using whole set_alist_update [of k v al] by auto
qed

text \<open>
  A pass over the entries, seen through a sum \<open>S\<close> of the state and an invariant \<open>W\<close>:
  when each step adds to the sum the amount of an entry that satisfies \<open>Q\<close> and nothing
  for another, the pass adds the amounts of the entries that satisfy \<open>Q\<close>.
\<close>

lemma fold_pass:
  fixes S :: "'s \<Rightarrow> rat"
  assumes step: "\<And>e s. e \<in> set es \<Longrightarrow> W s \<Longrightarrow>
      S s + (if Q e then finite_value (amount e) else 0) \<le> 2 ^ 53 \<Longrightarrow>
      W (step e s) \<and> S (step e s) = S s + (if Q e then finite_value (amount e) else 0)"
    and amounts: "\<forall>e \<in> set es. whole_number (amount e)"
    and start: "W s"
    and bound: "S s + sum_list (map (\<lambda>e. finite_value (amount e)) (filter Q es)) \<le> 2 ^ 53"
  shows "W (fold step es s) \<and>
         S (fold step es s) = S s + sum_list (map (\<lambda>e. finite_value (amount e)) (filter Q es))"
  using assms
proof (induction es arbitrary: s)
  case Nil
  then show ?case by simp
next
  case (Cons e es)
  have rest: "\<forall>x \<in> set es. whole_number (amount x)" using Cons.prems(2) by simp
  have "0 \<le> sum_list (map (\<lambda>e. finite_value (amount e)) (filter Q es))"
    using sum_list_whole_nonneg [of "map amount (filter Q es)"] rest by (simp add: comp_def)
  then have b: "S s + (if Q e then finite_value (amount e) else 0) \<le> 2 ^ 53"
    using Cons.prems(4) by (simp split: if_splits)
  have st: "W (step e s)" "S (step e s) = S s + (if Q e then finite_value (amount e) else 0)"
    using Cons.prems(1) [of e s] Cons.prems(3) b by simp_all
  have b': "S (step e s) + sum_list (map (\<lambda>e. finite_value (amount e)) (filter Q es)) \<le> 2 ^ 53"
    using Cons.prems(4) st(2) by (simp split: if_splits)
  have "W (fold step es (step e s)) \<and>
      S (fold step es (step e s))
        = S (step e s) + sum_list (map (\<lambda>e. finite_value (amount e)) (filter Q es))"
    using Cons.prems(1) rest st(1) b' by (intro Cons.IH) simp_all
  then show ?case using st(2) by simp
qed

text \<open>
  A step of \<open>categoryTotals\<close> for a category that is not an inherited name, on a table of
  whole numbers: the property of the category is written with the old number, or zero,
  plus the amount.
\<close>

lemma proto_inherited: "k \<notin> set inherited_names \<Longrightarrow> k \<noteq> ''__proto__''"
  by (auto simp: inherited_names_def)

lemma whole_to_number: "whole_number (to_number v) \<Longrightarrow> \<exists>x. v = Number (Num x)"
  by (cases v) (auto simp: whole_number_iff)

lemma bump_plain:
  assumes k: "k \<notin> set inherited_names"
    and whole: "\<forall>p \<in> set table. whole_number (to_number (snd p))"
  shows "\<exists>v. bump table k a = AList.update k v table \<and>
           to_number v = fadd (case map_of table k of None \<Rightarrow> Num 0 | Some b \<Rightarrow> to_number b) a"
proof (cases "map_of table k")
  case None
  then have "bump table k a = AList.update k (Number (fadd (Num 0) a)) table"
    using k proto_inherited [OF k] by (simp add: bump_def obj_set_def obj_get_def js_or_def)
  with None show ?thesis by (intro exI [of _ "Number (fadd (Num 0) a)"]) simp
next
  case (Some v)
  then have "(k, v) \<in> set table" by (rule map_of_SomeD)
  with whole have "whole_number (to_number v)" by auto
  then obtain x where x: "v = Number (Num x)" using whole_to_number by blast
  have "js_or v (Number (Num 0)) = v" by (simp add: js_or_def x)
  then have "bump table k a = AList.update k (Number (fadd (Num x) a)) table"
    using Some proto_inherited [OF k] by (simp add: bump_def obj_set_def obj_get_def x)
  with Some x show ?thesis by (intro exI [of _ "Number (fadd (Num x) a)"]) simp
qed

lemma bump_distinct: "distinct (map fst table) \<Longrightarrow> distinct (map fst (bump table k a))"
  by (simp add: bump_def obj_set_def distinct_update)

lemma fold_categoryStep_distinct:
  "distinct (map fst (cat_gastos acc)) \<and> distinct (map fst (cat_ingresos acc)) \<Longrightarrow>
   distinct (map fst (cat_gastos (fold categoryStep es acc))) \<and>
   distinct (map fst (cat_ingresos (fold categoryStep es acc)))"
proof (induction es arbitrary: acc)
  case Nil
  then show ?case by simp
next
  case (Cons e es)
  from Cons.prems have "distinct (map fst (cat_gastos (categoryStep e acc))) \<and>
      distinct (map fst (cat_ingresos (categoryStep e acc)))"
    by (simp add: categoryStep_def bump_distinct)
  then show ?case using Cons.IH by simp
qed

lemma categoryStep_gastos:
  assumes "category e \<notin> set inherited_names" "whole_number (amount e)"
    and "\<forall>p \<in> set (cat_gastos acc). whole_number (to_number (snd p))"
    and "sum_list (map (\<lambda>p. finite_value (to_number (snd p))) (cat_gastos acc))
           + (if type' e = gasto then finite_value (amount e) else 0) \<le> 2 ^ 53"
  shows "(\<forall>p \<in> set (cat_gastos (categoryStep e acc)). whole_number (to_number (snd p))) \<and>
         sum_list (map (\<lambda>p. finite_value (to_number (snd p))) (cat_gastos (categoryStep e acc)))
           = sum_list (map (\<lambda>p. finite_value (to_number (snd p))) (cat_gastos acc))
             + (if type' e = gasto then finite_value (amount e) else 0)"
proof (cases "type' e")
  case gasto
  from bump_plain [OF assms(1,3), of "amount e"] obtain v where
    v: "bump (cat_gastos acc) (category e) (amount e) = AList.update (category e) v (cat_gastos acc)"
      "to_number v = fadd (case map_of (cat_gastos acc) (category e) of
          None \<Rightarrow> Num 0 | Some b \<Rightarrow> to_number b) (amount e)"
    by blast
  have b: "sum_list (map (\<lambda>p. finite_value (to_number (snd p))) (cat_gastos acc))
      + finite_value (amount e) \<le> 2 ^ 53"
    using assms(4) gasto by simp
  note update_bump [where f = to_number, OF assms(3) assms(2) b v(2)]
  then show ?thesis using gasto by (simp add: categoryStep_def v(1))
next
  case ingreso
  then show ?thesis using assms(3) by (simp add: categoryStep_def)
qed

lemma categoryStep_ingresos:
  assumes "category e \<notin> set inherited_names" "whole_number (amount e)"
    and "\<forall>p \<in> set (cat_ingresos acc). whole_number (to_number (snd p))"
    and "sum_list (map (\<lambda>p. finite_value (to_number (snd p))) (cat_ingresos acc))
           + (if type' e = ingreso then finite_value (amount e) else 0) \<le> 2 ^ 53"
  shows "(\<forall>p \<in> set (cat_ingresos (categoryStep e acc)). whole_number (to_number (snd p))) \<and>
         sum_list (map (\<lambda>p. finite_value (to_number (snd p))) (cat_ingresos (categoryStep e acc)))
           = sum_list (map (\<lambda>p. finite_value (to_number (snd p))) (cat_ingresos acc))
             + (if type' e = ingreso then finite_value (amount e) else 0)"
proof (cases "type' e")
  case ingreso
  from bump_plain [OF assms(1,3), of "amount e"] obtain v where
    v: "bump (cat_ingresos acc) (category e) (amount e)
          = AList.update (category e) v (cat_ingresos acc)"
      "to_number v = fadd (case map_of (cat_ingresos acc) (category e) of
          None \<Rightarrow> Num 0 | Some b \<Rightarrow> to_number b) (amount e)"
    by blast
  have b: "sum_list (map (\<lambda>p. finite_value (to_number (snd p))) (cat_ingresos acc))
      + finite_value (amount e) \<le> 2 ^ 53"
    using assms(4) ingreso by simp
  note update_bump [where f = to_number, OF assms(3) assms(2) b v(2)]
  then show ?thesis using ingreso by (simp add: categoryStep_def v(1))
next
  case gasto
  then show ?thesis using assms(3) by (simp add: categoryStep_def)
qed

lemma categoryTotals_exact:
  assumes w: "whole_amounts es"
    and plain: "\<forall>e \<in> set es. category e \<notin> set inherited_names"
  shows "(\<forall>p \<in> set (cat_gastos (categoryTotals es)). whole_number (to_number (snd p))) \<and>
         sum_list (map (\<lambda>p. finite_value (to_number (snd p))) (cat_gastos (categoryTotals es)))
           = amount_sum gasto es"
    and "(\<forall>p \<in> set (cat_ingresos (categoryTotals es)). whole_number (to_number (snd p))) \<and>
         sum_list (map (\<lambda>p. finite_value (to_number (snd p))) (cat_ingresos (categoryTotals es)))
           = amount_sum ingreso es"
proof -
  have a: "\<forall>e \<in> set es. whole_number (amount e)"
    using w by (simp add: whole_amounts_def list_all_iff)
  have g: "(\<forall>p \<in> set (cat_gastos (fold categoryStep es \<lparr> cat_gastos = [], cat_ingresos = [] \<rparr>)).
        whole_number (to_number (snd p))) \<and>
      sum_list (map (\<lambda>p. finite_value (to_number (snd p)))
        (cat_gastos (fold categoryStep es \<lparr> cat_gastos = [], cat_ingresos = [] \<rparr>)))
      = sum_list (map (\<lambda>p. finite_value (to_number (snd p)))
          (cat_gastos \<lparr> cat_gastos = [], cat_ingresos = [] \<rparr>))
        + sum_list (map (\<lambda>e. finite_value (amount e)) (filter (\<lambda>e. type' e = gasto) es))"
  proof (rule fold_pass [where W = "\<lambda>acc :: CategoryTotals. \<forall>p \<in> set (cat_gastos acc). whole_number (to_number (snd p))"
        and S = "\<lambda>acc :: CategoryTotals. sum_list (map (\<lambda>p. finite_value (to_number (snd p))) (cat_gastos acc))"
        and Q = "\<lambda>e. type' e = gasto"])
    fix e and acc :: CategoryTotals
    assume "e \<in> set es"
      and "\<forall>p \<in> set (cat_gastos acc). whole_number (to_number (snd p))"
      and "sum_list (map (\<lambda>p. finite_value (to_number (snd p))) (cat_gastos acc))
        + (if type' e = gasto then finite_value (amount e) else 0) \<le> 2 ^ 53"
    then show "(\<forall>p \<in> set (cat_gastos (categoryStep e acc)). whole_number (to_number (snd p))) \<and>
        sum_list (map (\<lambda>p. finite_value (to_number (snd p))) (cat_gastos (categoryStep e acc)))
        = sum_list (map (\<lambda>p. finite_value (to_number (snd p))) (cat_gastos acc))
          + (if type' e = gasto then finite_value (amount e) else 0)"
      using plain a by (intro categoryStep_gastos) simp_all
  next
    show "\<forall>e \<in> set es. whole_number (amount e)" by (rule a)
  next
    show "\<forall>p \<in> set (cat_gastos \<lparr> cat_gastos = [], cat_ingresos = [] \<rparr>). whole_number (to_number (snd p))"
      by simp
  next
    show "sum_list (map (\<lambda>p. finite_value (to_number (snd p)))
          (cat_gastos \<lparr> cat_gastos = [], cat_ingresos = [] \<rparr>))
        + sum_list (map (\<lambda>e. finite_value (amount e)) (filter (\<lambda>e. type' e = gasto) es)) \<le> 2 ^ 53"
      using whole_amounts_filter(2) [OF w] by simp
  qed
  have i: "(\<forall>p \<in> set (cat_ingresos (fold categoryStep es \<lparr> cat_gastos = [], cat_ingresos = [] \<rparr>)).
        whole_number (to_number (snd p))) \<and>
      sum_list (map (\<lambda>p. finite_value (to_number (snd p)))
        (cat_ingresos (fold categoryStep es \<lparr> cat_gastos = [], cat_ingresos = [] \<rparr>)))
      = sum_list (map (\<lambda>p. finite_value (to_number (snd p)))
          (cat_ingresos \<lparr> cat_gastos = [], cat_ingresos = [] \<rparr>))
        + sum_list (map (\<lambda>e. finite_value (amount e)) (filter (\<lambda>e. type' e = ingreso) es))"
  proof (rule fold_pass [where W = "\<lambda>acc :: CategoryTotals. \<forall>p \<in> set (cat_ingresos acc). whole_number (to_number (snd p))"
        and S = "\<lambda>acc :: CategoryTotals. sum_list (map (\<lambda>p. finite_value (to_number (snd p))) (cat_ingresos acc))"
        and Q = "\<lambda>e. type' e = ingreso"])
    fix e and acc :: CategoryTotals
    assume "e \<in> set es"
      and "\<forall>p \<in> set (cat_ingresos acc). whole_number (to_number (snd p))"
      and "sum_list (map (\<lambda>p. finite_value (to_number (snd p))) (cat_ingresos acc))
        + (if type' e = ingreso then finite_value (amount e) else 0) \<le> 2 ^ 53"
    then show "(\<forall>p \<in> set (cat_ingresos (categoryStep e acc)). whole_number (to_number (snd p))) \<and>
        sum_list (map (\<lambda>p. finite_value (to_number (snd p))) (cat_ingresos (categoryStep e acc)))
        = sum_list (map (\<lambda>p. finite_value (to_number (snd p))) (cat_ingresos acc))
          + (if type' e = ingreso then finite_value (amount e) else 0)"
      using plain a by (intro categoryStep_ingresos) simp_all
  next
    show "\<forall>e \<in> set es. whole_number (amount e)" by (rule a)
  next
    show "\<forall>p \<in> set (cat_ingresos \<lparr> cat_gastos = [], cat_ingresos = [] \<rparr>). whole_number (to_number (snd p))"
      by simp
  next
    show "sum_list (map (\<lambda>p. finite_value (to_number (snd p)))
          (cat_ingresos \<lparr> cat_gastos = [], cat_ingresos = [] \<rparr>))
        + sum_list (map (\<lambda>e. finite_value (amount e)) (filter (\<lambda>e. type' e = ingreso) es)) \<le> 2 ^ 53"
      using whole_amounts_filter(2) [OF w] by simp
  qed
  show "(\<forall>p \<in> set (cat_gastos (categoryTotals es)). whole_number (to_number (snd p))) \<and>
         sum_list (map (\<lambda>p. finite_value (to_number (snd p))) (cat_gastos (categoryTotals es)))
           = amount_sum gasto es"
    using g by (simp add: categoryTotals_def amount_sum_def)
  show "(\<forall>p \<in> set (cat_ingresos (categoryTotals es)). whole_number (to_number (snd p))) \<and>
         sum_list (map (\<lambda>p. finite_value (to_number (snd p))) (cat_ingresos (categoryTotals es)))
           = amount_sum ingreso es"
    using i by (simp add: categoryTotals_def amount_sum_def)
qed

lemma exact_sum_field:
  fixes f :: "'v \<Rightarrow> jsnum"
  assumes "\<forall>p \<in> set al. whole_number (f (snd p))"
  shows "exact_sum (map (\<lambda>p. f (snd p)) al) = Some (sum_list (map (\<lambda>p. finite_value (f (snd p))) al))"
  using exact_sum_whole [of "map (\<lambda>p. f (snd p)) al"] assms by (simp add: comp_def)

section \<open>Properties of the daily totals\<close>

text \<open>
  A step of \<open>dailyTotals\<close> for a date string that is not an inherited name: the bucket of
  the date, or a new bucket, with the amount added to the field of the kind.
\<close>

lemma obj_lookup_plain:
  "k \<notin> set inherited_names \<Longrightarrow>
   obj_lookup obj k = (case map_of obj k of None \<Rightarrow> Absent | Some v \<Rightarrow> Own v)"
  by (simp add: obj_lookup_def split: option.split)

lemma dailyStep_plain:
  "date e \<notin> set inherited_names \<Longrightarrow>
   dailyStep e tb = AList.update (date e)
     (dayAdd e (case map_of tb (date e) of
        None \<Rightarrow> \<lparr> day_ingresos = Num 0, day_gastos = Num 0 \<rparr> | Some b \<Rightarrow> b)) tb"
  by (simp add: dailyStep_def Let_def obj_lookup_plain split: option.split)

lemma dailyStep_field:
  assumes "date e \<notin> set inherited_names" "whole_number (amount e)"
    and f: "f = day_ingresos \<and> k = ingreso \<or> f = day_gastos \<and> k = gasto"
    and whole: "\<forall>p \<in> set tb. whole_number (f (snd p))"
    and bound: "sum_list (map (\<lambda>p. finite_value (f (snd p))) tb)
           + (if type' e = k then finite_value (amount e) else 0) \<le> 2 ^ 53"
  shows "(\<forall>p \<in> set (dailyStep e tb). whole_number (f (snd p))) \<and>
         sum_list (map (\<lambda>p. finite_value (f (snd p))) (dailyStep e tb))
           = sum_list (map (\<lambda>p. finite_value (f (snd p))) tb)
             + (if type' e = k then finite_value (amount e) else 0)"
proof -
  let ?cur = "case map_of tb (date e) of
                None \<Rightarrow> \<lparr> day_ingresos = Num 0, day_gastos = Num 0 \<rparr> | Some b \<Rightarrow> b"
  let ?old = "case map_of tb (date e) of None \<Rightarrow> Num 0 | Some b \<Rightarrow> f b"
  have cur: "f ?cur = ?old" using f by (auto split: option.split)
  show ?thesis
  proof (cases "type' e = k")
    case True
    have "f (dayAdd e ?cur) = fadd (f ?cur) (amount e)"
      using f True by (auto simp: dayAdd_def)
    then have v: "f (dayAdd e ?cur) = fadd ?old (amount e)" by (simp only: cur)
    have b: "sum_list (map (\<lambda>p. finite_value (f (snd p))) tb) + finite_value (amount e) \<le> 2 ^ 53"
      using bound True by simp
    note update_bump [where f = f, OF whole assms(2) b v]
    then show ?thesis using True by (simp add: dailyStep_plain [OF assms(1)])
  next
    case False
    have "f (dayAdd e ?cur) = f ?cur"
      using f False by (cases "type' e") (auto simp: dayAdd_def)
    then have v: "f (dayAdd e ?cur) = ?old" by (simp only: cur)
    note update_keep [where f = f, OF whole v]
    then show ?thesis using False by (simp add: dailyStep_plain [OF assms(1)])
  qed
qed

lemma dailyTotals_exact:
  assumes w: "whole_amounts es"
    and plain: "\<forall>e \<in> set es. date e \<notin> set inherited_names"
    and f: "f = day_ingresos \<and> k = ingreso \<or> f = day_gastos \<and> k = gasto"
  shows "(\<forall>p \<in> set (dailyTotals es). whole_number (f (snd p))) \<and>
         sum_list (map (\<lambda>p. finite_value (f (snd p))) (dailyTotals es)) = amount_sum k es"
proof -
  have a: "\<forall>e \<in> set es. whole_number (amount e)"
    using w by (simp add: whole_amounts_def list_all_iff)
  have "(\<forall>p \<in> set (fold dailyStep es []). whole_number (f (snd p))) \<and>
      sum_list (map (\<lambda>p. finite_value (f (snd p))) (fold dailyStep es []))
      = sum_list (map (\<lambda>p. finite_value (f (snd p))) ([] :: (string \<times> DayTotals) list))
        + sum_list (map (\<lambda>e. finite_value (amount e)) (filter (\<lambda>e. type' e = k) es))"
  proof (rule fold_pass [where W = "\<lambda>tb :: (string \<times> DayTotals) list. \<forall>p \<in> set tb. whole_number (f (snd p))"
        and S = "\<lambda>tb :: (string \<times> DayTotals) list. sum_list (map (\<lambda>p. finite_value (f (snd p))) tb)"
        and Q = "\<lambda>e. type' e = k"])
    fix e and tb :: "(string \<times> DayTotals) list"
    assume "e \<in> set es"
      and "\<forall>p \<in> set tb. whole_number (f (snd p))"
      and "sum_list (map (\<lambda>p. finite_value (f (snd p))) tb)
        + (if type' e = k then finite_value (amount e) else 0) \<le> 2 ^ 53"
    then show "(\<forall>p \<in> set (dailyStep e tb). whole_number (f (snd p))) \<and>
        sum_list (map (\<lambda>p. finite_value (f (snd p))) (dailyStep e tb))
        = sum_list (map (\<lambda>p. finite_value (f (snd p))) tb)
          + (if type' e = k then finite_value (amount e) else 0)"
      using plain a f by (intro dailyStep_field) simp_all
  next
    show "\<forall>e \<in> set es. whole_number (amount e)" by (rule a)
  next
    show "\<forall>p \<in> set ([] :: (string \<times> DayTotals) list). whole_number (f (snd p))" by simp
  next
    show "sum_list (map (\<lambda>p. finite_value (f (snd p))) ([] :: (string \<times> DayTotals) list))
        + sum_list (map (\<lambda>e. finite_value (amount e)) (filter (\<lambda>e. type' e = k) es)) \<le> 2 ^ 53"
      using whole_amounts_filter(2) [OF w] by simp
  qed
  then show ?thesis by (simp add: dailyTotals_def amount_sum_def)
qed

lemma dailyStep_distinct: "distinct (map fst tb) \<Longrightarrow> distinct (map fst (dailyStep e tb))"
  by (simp add: dailyStep_def Let_def distinct_update split: lookup.split)

lemma fold_dailyStep_distinct:
  "distinct (map fst tb) \<Longrightarrow> distinct (map fst (fold dailyStep es tb))"
  by (induction es arbitrary: tb) (simp_all add: dailyStep_distinct)

text \<open>
  The pass of the calendar page. It ends with a \<^verbatim>\<open>TypeError\<close> exactly when the date
  string of an entry is an inherited name; otherwise its table holds under each date string
  that occurs the bucket of that date.
\<close>

lemma calendarPass_snoc:
  "calendarPass (es @ [e]) t =
     (case calendarPass es t of Inl err \<Rightarrow> Inl err | Inr t' \<Rightarrow> calendarStep e t')"
  by (induction es arbitrary: t) (simp_all split: sum.split)

lemma calendarStep_plain:
  "date e \<notin> set inherited_names \<Longrightarrow>
   calendarStep e tb = Inr (AList.update (date e)
     (pushAdd e (case map_of tb (date e) of
        None \<Rightarrow> \<lparr> cal_ingresos = Num 0, cal_gastos = Num 0, cal_entries = [] \<rparr>
      | Some b \<Rightarrow> b)) tb)"
  by (simp add: calendarStep_def Let_def obj_lookup_plain split: option.split)

lemma calendarStep_keys:
  assumes "calendarStep e tb = Inr tb'"
  shows "fst ` set tb' = insert (date e) (fst ` set tb)"
proof -
  from assms obtain v where "tb' = AList.update (date e) v tb"
    by (auto simp: calendarStep_def Let_def split: lookup.splits)
  then show ?thesis by (simp add: AList.dom_update)
qed

lemma calendarStep_inherited:
  assumes "date e \<in> set inherited_names" "date e \<notin> fst ` set tb"
  shows "calendarStep e tb = Inl TypeError"
proof -
  have "map_of tb (date e) = None" using assms(2) by (simp add: map_of_eq_None_iff)
  then show ?thesis using assms(1) by (simp add: calendarStep_def Let_def obj_lookup_def)
qed

lemma calendarStep_error: "calendarStep e tb = Inl err \<Longrightarrow> err = TypeError"
  by (simp add: calendarStep_def Let_def split: lookup.splits)

lemma calendarPass_inherited:
  "\<exists>e \<in> set es. date e \<in> set inherited_names \<Longrightarrow>
   fst ` set tb \<inter> set inherited_names = {} \<Longrightarrow> calendarPass es tb = Inl TypeError"
proof (induction es arbitrary: tb)
  case Nil
  then show ?case by simp
next
  case (Cons e es)
  show ?case
  proof (cases "date e \<in> set inherited_names")
    case True
    then have "date e \<notin> fst ` set tb" using Cons.prems(2) by auto
    with True have "calendarStep e tb = Inl TypeError" by (rule calendarStep_inherited)
    then show ?thesis by simp
  next
    case False
    then obtain tb' where s: "calendarStep e tb = Inr tb'" by (simp add: calendarStep_plain)
    then have "fst ` set tb' = insert (date e) (fst ` set tb)" by (rule calendarStep_keys)
    then have k: "fst ` set tb' \<inter> set inherited_names = {}" using False Cons.prems(2) by auto
    have "\<exists>e \<in> set es. date e \<in> set inherited_names" using Cons.prems(1) False by auto
    then have "calendarPass es tb' = Inl TypeError" using k by (rule Cons.IH)
    then show ?thesis by (simp add: s)
  qed
qed

lemma bucket_of_Nil:
  "bucket_of [] d = \<lparr> cal_ingresos = Num 0, cal_gastos = Num 0, cal_entries = [] \<rparr>"
  by (simp add: bucket_of_def reduce_amount_def)

lemma bucket_of_no_entry: "d \<notin> date ` set es \<Longrightarrow> bucket_of es d = bucket_of [] d"
proof -
  assume "d \<notin> date ` set es"
  then have "\<And>P. filter (\<lambda>e. date e = d \<and> P e) es = []" "filter (\<lambda>e. date e = d) es = []"
    by (auto simp: filter_empty_conv)
  then show ?thesis by (simp add: bucket_of_def)
qed

lemma bucket_of_snoc_same: "bucket_of (es @ [e]) (date e) = pushAdd e (bucket_of es (date e))"
  by (cases "type' e") (simp_all add: bucket_of_def reduce_amount_snoc pushAdd_def Let_def)

lemma bucket_of_snoc_other: "d \<noteq> date e \<Longrightarrow> bucket_of (es @ [e]) d = bucket_of es d"
  by (simp add: bucket_of_def)

lemma calendarDailyTotals_plain:
  "\<forall>e \<in> set es. date e \<notin> set inherited_names \<Longrightarrow>
   \<exists>tbl. calendarDailyTotals es = Inr tbl \<and> distinct (map fst tbl) \<and>
     (\<forall>d. map_of tbl d = (if d \<in> date ` set es then Some (bucket_of es d) else None))"
proof (induction es rule: rev_induct)
  case Nil
  show ?case by (simp add: calendarDailyTotals_def)
next
  case (snoc e es)
  then obtain tbl where t: "calendarDailyTotals es = Inr tbl" "distinct (map fst tbl)"
    and l: "\<And>d. map_of tbl d = (if d \<in> date ` set es then Some (bucket_of es d) else None)"
    by auto
  let ?v = "pushAdd e (case map_of tbl (date e) of
        None \<Rightarrow> \<lparr> cal_ingresos = Num 0, cal_gastos = Num 0, cal_entries = [] \<rparr>
      | Some b \<Rightarrow> b)"
  have plain: "date e \<notin> set inherited_names" using snoc.prems by simp
  have cur: "(case map_of tbl (date e) of
        None \<Rightarrow> \<lparr> cal_ingresos = Num 0, cal_gastos = Num 0, cal_entries = [] \<rparr>
      | Some b \<Rightarrow> b) = bucket_of es (date e)"
    by (simp add: l bucket_of_no_entry bucket_of_Nil)
  have v: "?v = bucket_of (es @ [e]) (date e)"
    unfolding cur by (simp add: bucket_of_snoc_same)
  have r: "calendarDailyTotals (es @ [e]) = Inr (AList.update (date e) ?v tbl)"
    using t(1) by (simp add: calendarDailyTotals_def calendarPass_snoc calendarStep_plain [OF plain])
  have d: "distinct (map fst (AList.update (date e) ?v tbl))"
    using t(2) by (rule distinct_update)
  have m: "map_of (AList.update (date e) ?v tbl) d
      = (if d \<in> date ` set (es @ [e]) then Some (bucket_of (es @ [e]) d) else None)" for d
    unfolding v by (simp add: update_conv' l bucket_of_snoc_other)
  show ?case using r d m by blast
qed

lemma calendarDailyTotals_inherited:
  "\<exists>e \<in> set es. date e \<in> set inherited_names \<Longrightarrow> calendarDailyTotals es = Inl TypeError"
  unfolding calendarDailyTotals_def by (rule calendarPass_inherited) simp_all

text \<open>
  Where the pass of the calendar page ends without an exception, its table without the
  entries is the table of the dashboard.
\<close>

lemma update_map_values:
  "AList.update k (g v) (map (\<lambda>p. (fst p, g (snd p))) al)
   = map (\<lambda>p. (fst p, g (snd p))) (AList.update k v al)"
  by (induction al) auto

lemma map_of_map_values:
  "map_of (map (\<lambda>p. (fst p, g (snd p))) al) k = map_option g (map_of al k)"
  by (induction al) auto

lemma withoutEntries_pushAdd: "withoutEntries (pushAdd e b) = dayAdd e (withoutEntries b)"
  by (simp add: withoutEntries_def pushAdd_def dayAdd_def Let_def)

lemma calendarStep_dailyStep:
  assumes "calendarStep e tb = Inr tb'"
  shows "map (\<lambda>p. (fst p, withoutEntries (snd p))) tb'
         = dailyStep e (map (\<lambda>p. (fst p, withoutEntries (snd p))) tb)"
proof (cases "map_of tb (date e)")
  case None
  then have n: "date e \<notin> set inherited_names"
    using assms by (auto simp: calendarStep_def Let_def obj_lookup_def)
  have z: "\<lparr> day_ingresos = Num 0, day_gastos = Num 0 \<rparr>
      = withoutEntries \<lparr> cal_ingresos = Num 0, cal_gastos = Num 0, cal_entries = [] \<rparr>"
    by (simp add: withoutEntries_def)
  show ?thesis
    using assms None n
    by (auto simp: calendarStep_def dailyStep_def Let_def obj_lookup_def map_of_map_values
        z withoutEntries_pushAdd [symmetric] update_map_values simp del: withoutEntries_pushAdd)
next
  case (Some b)
  then show ?thesis
    using assms
    by (auto simp: calendarStep_def dailyStep_def Let_def obj_lookup_def map_of_map_values
        withoutEntries_pushAdd [symmetric] update_map_values)
qed

lemma calendarPass_dailyTotals:
  "calendarPass es tb = Inr tb' \<Longrightarrow>
   map (\<lambda>p. (fst p, withoutEntries (snd p))) tb'
   = fold dailyStep es (map (\<lambda>p. (fst p, withoutEntries (snd p))) tb)"
proof (induction es arbitrary: tb)
  case Nil
  then show ?case by simp
next
  case (Cons e es)
  then obtain t where s: "calendarStep e tb = Inr t" and r: "calendarPass es t = Inr tb'"
    by (auto split: sum.splits)
  from r have "map (\<lambda>p. (fst p, withoutEntries (snd p))) tb'
      = fold dailyStep es (map (\<lambda>p. (fst p, withoutEntries (snd p))) t)"
    by (rule Cons.IH)
  then show ?case by (simp add: calendarStep_dailyStep [OF s])
qed

lemma calendarDailyTotals_dailyTotals:
  "calendarDailyTotals es = Inr tbl \<Longrightarrow>
   map (\<lambda>p. (fst p, withoutEntries (snd p))) tbl = dailyTotals es"
  using calendarPass_dailyTotals [of es "[]" tbl]
  by (simp add: calendarDailyTotals_def dailyTotals_def)

section \<open>Claims about the dashboard\<close>

text \<open>
  C1, as stated, fails: the totals and the balance are computed in doubles. With an income
  of \<open>2\<^sup>5\<^sup>3\<close> and an expense of one half, the income total is \<open>2\<^sup>5\<^sup>3\<close>, the expense total
  one half, and the balance is \<open>2\<^sup>5\<^sup>3\<close>: the difference lies halfway between two doubles
  and is rounded.
\<close>

theorem totals_balance_counterexample:
  "ingresos (totals
     [\<lparr> id' = ''1'', type' = ingreso, category = ''Ventas'',
        amount = Num 9007199254740992, date = ''2024-01-05'', description = Some [] \<rparr>,
      \<lparr> id' = ''2'', type' = gasto, category = ''Gas'',
        amount = Num (1 / 2), date = ''2024-01-05'', description = Some [] \<rparr>])
     = Num 9007199254740992 \<and>
   gastos (totals
     [\<lparr> id' = ''1'', type' = ingreso, category = ''Ventas'',
        amount = Num 9007199254740992, date = ''2024-01-05'', description = Some [] \<rparr>,
      \<lparr> id' = ''2'', type' = gasto, category = ''Gas'',
        amount = Num (1 / 2), date = ''2024-01-05'', description = Some [] \<rparr>])
     = Num (1 / 2) \<and>
   balance (totals
     [\<lparr> id' = ''1'', type' = ingreso, category = ''Ventas'',
        amount = Num 9007199254740992, date = ''2024-01-05'', description = Some [] \<rparr>,
      \<lparr> id' = ''2'', type' = gasto, category = ''Gas'',
        amount = Num (1 / 2), date = ''2024-01-05'', description = Some [] \<rparr>])
     = Num 9007199254740992 \<and>
   Num 9007199254740992 \<noteq> Num (9007199254740992 - 1 / 2)"
  by (simp add: totals_def reduce_amount_def Let_def fadd_exact half_is_double
      two_53_minus_half)

text \<open>
  C1, amended. For every entry list whose amounts are whole, not negative and sum to at
  most \<open>2\<^sup>5\<^sup>3\<close>, the income total of \<open>totals\<close> is the sum of the amounts of the entries of
  kind \<open>ingreso\<close>, the expense total the sum of the amounts of the entries of kind
  \<open>gasto\<close>, and the balance is the income total less the expense total, all exactly.
\<close>

theorem totals_balance_whole:
  "whole_amounts es \<Longrightarrow>
   ingresos (totals es) = Num (amount_sum ingreso es) \<and>
   gastos (totals es) = Num (amount_sum gasto es) \<and>
   balance (totals es) = Num (amount_sum ingreso es - amount_sum gasto es)"
  by (simp add: totals_exact)

theorem totals_balance_whole_witness:
  "whole_amounts scenario \<and>
   ingresos (totals scenario) = Num 200 \<and>
   gastos (totals scenario) = Num 80 \<and>
   balance (totals scenario) = Num 120"
proof -
  have w: "whole_amounts scenario" by (simp add: whole_amounts_def scenario_def)
  have s: "amount_sum ingreso scenario = 200" "amount_sum gasto scenario = 80"
    by (simp_all add: amount_sum_def scenario_def)
  from totals_balance_whole [OF w] show ?thesis using w by (simp add: s)
qed

text \<open>
  C3, as stated, fails. With expenses of 0.1 under one category and of 0.2 and 0.3 under
  another, the expense total is 0.6000000000000001, the category totals are 0.1 and 0.5,
  and these add up to 0.6 in doubles and to a third number exactly; neither is the total.
  The amounts are the doubles nearest to 0.1, 0.2 and 0.3. And with one expense of 50
  under the category \<^verbatim>\<open>constructor\<close>, the expense total is 50 and the value of the
  mapping is a string.
\<close>

theorem categoryTotals_sum_counterexample:
  "gastos (totals
     [\<lparr> id' = ''1'', type' = gasto, category = ''Carne'',
        amount = Num (3602879701896397 / 36028797018963968), date = ''2024-01-05'',
        description = Some [] \<rparr>,
      \<lparr> id' = ''2'', type' = gasto, category = ''Gas'',
        amount = Num (3602879701896397 / 18014398509481984), date = ''2024-01-05'',
        description = Some [] \<rparr>,
      \<lparr> id' = ''3'', type' = gasto, category = ''Gas'',
        amount = Num (5404319552844595 / 18014398509481984), date = ''2024-01-05'',
        description = Some [] \<rparr>]) = Num (1351079888211149 / 2251799813685248) \<and>
   cat_gastos (categoryTotals
     [\<lparr> id' = ''1'', type' = gasto, category = ''Carne'',
        amount = Num (3602879701896397 / 36028797018963968), date = ''2024-01-05'',
        description = Some [] \<rparr>,
      \<lparr> id' = ''2'', type' = gasto, category = ''Gas'',
        amount = Num (3602879701896397 / 18014398509481984), date = ''2024-01-05'',
        description = Some [] \<rparr>,
      \<lparr> id' = ''3'', type' = gasto, category = ''Gas'',
        amount = Num (5404319552844595 / 18014398509481984), date = ''2024-01-05'',
        description = Some [] \<rparr>])
     = [(''Carne'', Number (Num (3602879701896397 / 36028797018963968))),
        (''Gas'', Number (Num (1 / 2)))] \<and>
   sum_doubles [Num (3602879701896397 / 36028797018963968), Num (1 / 2)]
     = Num (5404319552844595 / 9007199254740992) \<and>
   exact_sum [Num (3602879701896397 / 36028797018963968), Num (1 / 2)]
     = Some (21617278211378381 / 36028797018963968) \<and>
   Num (5404319552844595 / 9007199254740992) \<noteq> Num (1351079888211149 / 2251799813685248) \<and>
   Num (21617278211378381 / 36028797018963968) \<noteq> Num (1351079888211149 / 2251799813685248) \<and>
   gastos (totals
     [\<lparr> id' = ''4'', type' = gasto, category = ''constructor'',
        amount = Num 50, date = ''2024-01-05'', description = Some [] \<rparr>]) = Num 50 \<and>
   cat_gastos (categoryTotals
     [\<lparr> id' = ''4'', type' = gasto, category = ''constructor'',
        amount = Num 50, date = ''2024-01-05'', description = Some [] \<rparr>])
     = [(''constructor'', Text)]"
  by (simp add: totals_def reduce_amount_def categoryTotals_def categoryStep_def bump_def
      obj_get_def obj_set_def js_or_def inherited_names_def Let_def sum_doubles_def
      tenth_is_double two_tenths_is_double tenth_plus_two_tenths plus_three_tenths
      two_tenths_plus_three_tenths tenth_plus_half fadd_exact)

text \<open>
  C3, amended. For every entry list whose amounts are whole, not negative and sum to at
  most \<open>2\<^sup>5\<^sup>3\<close>, and whose categories are not names that an object inherits, and for each
  kind, the values of that kind's mapping of \<open>categoryTotals\<close> are numbers that add up
  exactly to that kind's total of \<open>totals\<close>. Each category is a key of its mapping once.
\<close>

theorem categoryTotals_sum_whole:
  assumes "whole_amounts es"
    and "plain_names (map category es)"
  shows "exact_sum (map (\<lambda>p. to_number (snd p)) (cat_gastos (categoryTotals es)))
           = Some (amount_sum gasto es) \<and>
         gastos (totals es) = Num (amount_sum gasto es) \<and>
         exact_sum (map (\<lambda>p. to_number (snd p)) (cat_ingresos (categoryTotals es)))
           = Some (amount_sum ingreso es) \<and>
         ingresos (totals es) = Num (amount_sum ingreso es) \<and>
         (\<forall>p \<in> set (cat_gastos (categoryTotals es)). \<exists>x. snd p = Number (Num x)) \<and>
         (\<forall>p \<in> set (cat_ingresos (categoryTotals es)). \<exists>x. snd p = Number (Num x)) \<and>
         distinct (map fst (cat_gastos (categoryTotals es))) \<and>
         distinct (map fst (cat_ingresos (categoryTotals es)))"
proof -
  have plain: "\<forall>e \<in> set es. category e \<notin> set inherited_names"
    using assms(2) by (simp add: plain_names_map)
  note c = categoryTotals_exact [OF assms(1) plain]
  have g: "exact_sum (map (\<lambda>p. to_number (snd p)) (cat_gastos (categoryTotals es)))
      = Some (amount_sum gasto es)"
    using c(1) by (simp add: exact_sum_field)
  have i: "exact_sum (map (\<lambda>p. to_number (snd p)) (cat_ingresos (categoryTotals es)))
      = Some (amount_sum ingreso es)"
    using c(2) by (simp add: exact_sum_field)
  have ng: "\<forall>p \<in> set (cat_gastos (categoryTotals es)). \<exists>x. snd p = Number (Num x)"
    using c(1) whole_to_number by blast
  have ni: "\<forall>p \<in> set (cat_ingresos (categoryTotals es)). \<exists>x. snd p = Number (Num x)"
    using c(2) whole_to_number by blast
  have d: "distinct (map fst (cat_gastos (categoryTotals es))) \<and>
      distinct (map fst (cat_ingresos (categoryTotals es)))"
    unfolding categoryTotals_def by (rule fold_categoryStep_distinct) simp
  show ?thesis using g i ng ni d totals_exact(1,2) [OF assms(1)] by simp
qed

theorem categoryTotals_sum_whole_witness:
  "whole_amounts scenario \<and>
   plain_names (map category scenario) \<and>
   exact_sum (map (\<lambda>p. to_number (snd p)) (cat_gastos (categoryTotals scenario))) = Some 80 \<and>
   gastos (totals scenario) = Num 80 \<and>
   exact_sum (map (\<lambda>p. to_number (snd p)) (cat_ingresos (categoryTotals scenario))) = Some 200 \<and>
   ingresos (totals scenario) = Num 200"
proof -
  have w: "whole_amounts scenario" by (simp add: whole_amounts_def scenario_def)
  have p: "plain_names (map category scenario)"
    by (simp add: plain_names_def scenario_def inherited_names_def)
  have s: "amount_sum ingreso scenario = 200" "amount_sum gasto scenario = 80"
    by (simp_all add: amount_sum_def scenario_def)
  from categoryTotals_sum_whole [OF w p] show ?thesis using w p by (simp add: s)
qed

text \<open>
  C4, as stated, fails. With an income of \<open>2\<^sup>5\<^sup>3\<close> on one day and two incomes of 1 on the
  next, the income total is \<open>2\<^sup>5\<^sup>3\<close>, each 1 being lost to rounding, and the income sums
  of the two days are \<open>2\<^sup>5\<^sup>3\<close> and 2, which add up to \<open>2\<^sup>5\<^sup>3 + 2\<close>. And with one income of 50
  whose date string is \<^verbatim>\<open>constructor\<close>, the income total is 50, the table of the
  dashboard is empty, and the pass of the calendar page ends with a \<^verbatim>\<open>TypeError\<close>.
\<close>

theorem dailyTotals_sum_counterexample:
  "ingresos (totals
     [\<lparr> id' = ''1'', type' = ingreso, category = ''Ventas'',
        amount = Num 9007199254740992, date = ''2024-01-05'', description = Some [] \<rparr>,
      \<lparr> id' = ''2'', type' = ingreso, category = ''Ventas'',
        amount = Num 1, date = ''2024-01-06'', description = Some [] \<rparr>,
      \<lparr> id' = ''3'', type' = ingreso, category = ''Ventas'',
        amount = Num 1, date = ''2024-01-06'', description = Some [] \<rparr>])
     = Num 9007199254740992 \<and>
   dailyTotals
     [\<lparr> id' = ''1'', type' = ingreso, category = ''Ventas'',
        amount = Num 9007199254740992, date = ''2024-01-05'', description = Some [] \<rparr>,
      \<lparr> id' = ''2'', type' = ingreso, category = ''Ventas'',
        amount = Num 1, date = ''2024-01-06'', description = Some [] \<rparr>,
      \<lparr> id' = ''3'', type' = ingreso, category = ''Ventas'',
        amount = Num 1, date = ''2024-01-06'', description = Some [] \<rparr>]
     = [(''2024-01-05'', \<lparr> day_ingresos = Num 9007199254740992, day_gastos = Num 0 \<rparr>),
        (''2024-01-06'', \<lparr> day_ingresos = Num 2, day_gastos = Num 0 \<rparr>)] \<and>
   sum_doubles [Num 9007199254740992, Num 2] = Num 9007199254740994 \<and>
   exact_sum [Num 9007199254740992, Num 2] = Some 9007199254740994 \<and>
   Num 9007199254740994 \<noteq> Num 9007199254740992 \<and>
   ingresos (totals
     [\<lparr> id' = ''4'', type' = ingreso, category = ''Ventas'',
        amount = Num 50, date = ''constructor'', description = Some [] \<rparr>]) = Num 50 \<and>
   dailyTotals
     [\<lparr> id' = ''4'', type' = ingreso, category = ''Ventas'',
        amount = Num 50, date = ''constructor'', description = Some [] \<rparr>] = [] \<and>
   calendarDailyTotals
     [\<lparr> id' = ''4'', type' = ingreso, category = ''Ventas'',
        amount = Num 50, date = ''constructor'', description = Some [] \<rparr>] = Inl TypeError"
proof -
  have z: "fadd (Num 0) (Num 9007199254740992) = Num 9007199254740992"
    "fadd (Num 0) (Num 1) = Num 1" "fadd (Num 1) (Num 1) = Num 2"
    "fadd (Num 0) (Num 50) = Num 50"
    by (simp_all add: fadd_exact)
  show ?thesis
    by (simp add: totals_def reduce_amount_def dailyTotals_def dailyStep_def dayAdd_def
        calendarDailyTotals_def calendarStep_def obj_lookup_def inherited_names_def Let_def
        sum_doubles_def z two_53_plus_one two_53_plus_two)
qed

text \<open>
  C4, amended. For every entry list whose amounts are whole, not negative and sum to at
  most \<open>2\<^sup>5\<^sup>3\<close>, and whose date strings are not names that an object inherits, the income
  sums of the buckets of \<open>dailyTotals\<close> add up exactly to the global income total and the
  expense sums to the global expense total; the pass of the calendar page ends without an
  exception and the same holds of its table. Each date is a key once.
\<close>

theorem dailyTotals_sum_whole:
  assumes "whole_amounts es"
    and "plain_names (map date es)"
  shows "exact_sum (map (\<lambda>p. day_ingresos (snd p)) (dailyTotals es))
           = Some (amount_sum ingreso es) \<and>
         ingresos (totals es) = Num (amount_sum ingreso es) \<and>
         exact_sum (map (\<lambda>p. day_gastos (snd p)) (dailyTotals es))
           = Some (amount_sum gasto es) \<and>
         gastos (totals es) = Num (amount_sum gasto es) \<and>
         distinct (map fst (dailyTotals es)) \<and>
         (\<exists>tbl. calendarDailyTotals es = Inr tbl \<and>
            exact_sum (map (\<lambda>p. cal_ingresos (snd p)) tbl) = Some (amount_sum ingreso es) \<and>
            exact_sum (map (\<lambda>p. cal_gastos (snd p)) tbl) = Some (amount_sum gasto es) \<and>
            distinct (map fst tbl))"
proof -
  have plain: "\<forall>e \<in> set es. date e \<notin> set inherited_names"
    using assms(2) by (simp add: plain_names_map)
  have i: "exact_sum (map (\<lambda>p. day_ingresos (snd p)) (dailyTotals es))
      = Some (amount_sum ingreso es)"
    using dailyTotals_exact [OF assms(1) plain, of day_ingresos ingreso]
    by (simp add: exact_sum_field)
  have g: "exact_sum (map (\<lambda>p. day_gastos (snd p)) (dailyTotals es))
      = Some (amount_sum gasto es)"
    using dailyTotals_exact [OF assms(1) plain, of day_gastos gasto]
    by (simp add: exact_sum_field)
  have d: "distinct (map fst (dailyTotals es))"
    unfolding dailyTotals_def by (rule fold_dailyStep_distinct) simp
  from calendarDailyTotals_plain [OF plain] obtain tbl where
    t: "calendarDailyTotals es = Inr tbl" "distinct (map fst tbl)" by blast
  have m: "map (\<lambda>p. (fst p, withoutEntries (snd p))) tbl = dailyTotals es"
    using t(1) by (rule calendarDailyTotals_dailyTotals)
  have "map (\<lambda>p. cal_ingresos (snd p)) tbl = map (\<lambda>p. day_ingresos (snd p)) (dailyTotals es)"
    "map (\<lambda>p. cal_gastos (snd p)) tbl = map (\<lambda>p. day_gastos (snd p)) (dailyTotals es)"
    unfolding m [symmetric] by (simp_all add: withoutEntries_def)
  then have c: "exact_sum (map (\<lambda>p. cal_ingresos (snd p)) tbl) = Some (amount_sum ingreso es)"
    "exact_sum (map (\<lambda>p. cal_gastos (snd p)) tbl) = Some (amount_sum gasto es)"
    using i g by simp_all
  show ?thesis using i g d t c totals_exact(1,2) [OF assms(1)] by simp
qed

theorem dailyTotals_sum_whole_witness:
  "whole_amounts scenario \<and>
   plain_names (map date scenario) \<and>
   exact_sum (map (\<lambda>p. day_ingresos (snd p)) (dailyTotals scenario)) = Some 200 \<and>
   ingresos (totals scenario) = Num 200 \<and>
   exact_sum (map (\<lambda>p. day_gastos (snd p)) (dailyTotals scenario)) = Some 80 \<and>
   gastos (totals scenario) = Num 80"
proof -
  have w: "whole_amounts scenario" by (simp add: whole_amounts_def scenario_def)
  have p: "plain_names (map date scenario)"
    by (simp add: plain_names_def scenario_def inherited_names_def)
  have s: "amount_sum ingreso scenario = 200" "amount_sum gasto scenario = 80"
    by (simp_all add: amount_sum_def scenario_def)
  from dailyTotals_sum_whole [OF w p] show ?thesis using w p by (simp add: s)
qed

text \<open>
  C7. When the category field or the amount field of the form is empty, \<open>addEntry\<close>
  changes nothing: the entry list and the form are as before, and no entry is created.
\<close>

theorem addEntry_empty_field_noop:
  "new_category (newEntry st) = [] \<or> new_amount (newEntry st) = [] \<Longrightarrow>
   addEntry parseFloat now today st = st"
  by (simp add: addEntry_def)

theorem addEntry_empty_field_noop_witness:
  "new_amount (newEntry \<lparr> entries = [], newEntry = \<lparr> new_type = ingreso,
       new_category = ''Ventas'', new_amount = [], new_date = ''2024-01-05'',
       new_description = [] \<rparr> \<rparr>) = [] \<and>
   addEntry (\<lambda>s. Num 0) ''1704412800000'' ''2024-01-05''
     \<lparr> entries = [], newEntry = \<lparr> new_type = ingreso,
       new_category = ''Ventas'', new_amount = [], new_date = ''2024-01-05'',
       new_description = [] \<rparr> \<rparr>
   = \<lparr> entries = [], newEntry = \<lparr> new_type = ingreso,
       new_category = ''Ventas'', new_amount = [], new_date = ''2024-01-05'',
       new_description = [] \<rparr> \<rparr>"
proof -
  let ?st = "\<lparr> entries = [], newEntry = \<lparr> new_type = ingreso,
       new_category = ''Ventas'', new_amount = [], new_date = ''2024-01-05'',
       new_description = [] \<rparr> \<rparr>"
  have h: "new_category (newEntry ?st) = [] \<or> new_amount (newEntry ?st) = []" by simp
  show ?thesis
    using addEntry_empty_field_noop [OF h, of "\<lambda>s. Num 0" "''1704412800000''" "''2024-01-05''"]
    by simp
qed

text \<open>
  C9. When the category and the amount of the form are not empty, \<open>addEntry\<close> puts one
  new entry, built from the form, the clock and the parsed amount, at the end of the list:
  the entries that were there keep their values and their positions, and the list is one
  longer.
\<close>

theorem addEntry_appends:
  "new_category (newEntry st) \<noteq> [] \<Longrightarrow> new_amount (newEntry st) \<noteq> [] \<Longrightarrow>
   entries (addEntry parseFloat now today st) =
     entries st @ [\<lparr> id' = now, type' = new_type (newEntry st),
                      category = new_category (newEntry st),
                      amount = parseFloat (new_amount (newEntry st)),
                      date = new_date (newEntry st),
                      description = Some (new_description (newEntry st)) \<rparr>] \<and>
   length (entries (addEntry parseFloat now today st)) = length (entries st) + 1 \<and>
   take (length (entries st)) (entries (addEntry parseFloat now today st)) = entries st \<and>
   (\<forall>k < length (entries st). entries (addEntry parseFloat now today st) ! k = entries st ! k)"
  by (simp add: addEntry_def Let_def nth_append)

theorem addEntry_appends_witness:
  "new_category (newEntry \<lparr> entries = [\<lparr> id' = ''1704412800000'', type' = gasto,
       category = ''Gas'', amount = Num 30, date = ''2024-01-06'', description = Some [] \<rparr>],
     newEntry = \<lparr> new_type = ingreso, new_category = ''Ventas'', new_amount = ''200'',
       new_date = ''2024-01-05'', new_description = ''feria'' \<rparr> \<rparr>) \<noteq> [] \<and>
   new_amount (newEntry \<lparr> entries = [\<lparr> id' = ''1704412800000'', type' = gasto,
       category = ''Gas'', amount = Num 30, date = ''2024-01-06'', description = Some [] \<rparr>],
     newEntry = \<lparr> new_type = ingreso, new_category = ''Ventas'', new_amount = ''200'',
       new_date = ''2024-01-05'', new_description = ''feria'' \<rparr> \<rparr>) \<noteq> [] \<and>
   entries (addEntry (\<lambda>s. Num 200) ''1704499200000'' ''2024-01-06''
     \<lparr> entries = [\<lparr> id' = ''1704412800000'', type' = gasto,
       category = ''Gas'', amount = Num 30, date = ''2024-01-06'', description = Some [] \<rparr>],
     newEntry = \<lparr> new_type = ingreso, new_category = ''Ventas'', new_amount = ''200'',
       new_date = ''2024-01-05'', new_description = ''feria'' \<rparr> \<rparr>)
   = [\<lparr> id' = ''1704412800000'', type' = gasto,
       category = ''Gas'', amount = Num 30, date = ''2024-01-06'', description = Some [] \<rparr>,
      \<lparr> id' = ''1704499200000'', type' = ingreso,
       category = ''Ventas'', amount = Num 200, date = ''2024-01-05'',
       description = Some ''feria'' \<rparr>]"
proof -
  let ?st = "\<lparr> entries = [\<lparr> id' = ''1704412800000'', type' = gasto,
       category = ''Gas'', amount = Num 30, date = ''2024-01-06'', description = Some [] \<rparr>],
     newEntry = \<lparr> new_type = ingreso, new_category = ''Ventas'', new_amount = ''200'',
       new_date = ''2024-01-05'', new_description = ''feria'' \<rparr> \<rparr>"
  have c: "new_category (newEntry ?st) \<noteq> []" by simp
  have a: "new_amount (newEntry ?st) \<noteq> []" by simp
  show ?thesis
    using c a addEntry_appends [OF c a, of "\<lambda>s. Num 200" "''1704499200000''" "''2024-01-06''"]
    by simp
qed

text \<open>
  C2, as stated, fails: on a list in which two entries carry the same identifier,
  \<open>deleteEntry\<close> removes both of them, not exactly one.
\<close>

theorem deleteEntry_exactly_one_counterexample:
  "entries (deleteEntry ''1704412800000''
     \<lparr> entries = [\<lparr> id' = ''1704412800000'', type' = gasto, category = ''Gas'',
                      amount = Num 30, date = ''2024-01-06'', description = Some [] \<rparr>,
                    \<lparr> id' = ''1704412800000'', type' = ingreso, category = ''Ventas'',
                      amount = Num 200, date = ''2024-01-05'', description = Some [] \<rparr>],
       newEntry = \<lparr> new_type = gasto, new_category = [], new_amount = [],
                    new_date = ''2024-01-06'', new_description = [] \<rparr> \<rparr>) = []"
  by (simp add: deleteEntry_def)

text \<open>
  C2, amended. \<open>deleteEntry\<close> removes every entry whose identifier matches and keeps
  every other entry, in value, number and order; the form is untouched. When no entry has
  the identifier the state is unchanged, and when the identifiers of the list are pairwise
  distinct and one matches, exactly that one entry is removed.
\<close>

theorem deleteEntry_removes_matching:
  "newEntry (deleteEntry i st) = newEntry st \<and>
   subseq (entries (deleteEntry i st)) (entries st) \<and>
   (\<forall>e. count_list (entries (deleteEntry i st)) e =
        (if id' e = i then 0 else count_list (entries st) e)) \<and>
   (i \<notin> id' ` set (entries st) \<longrightarrow> deleteEntry i st = st) \<and>
   (distinct (map id' (entries st)) \<and> i \<in> id' ` set (entries st) \<longrightarrow>
      (\<exists>xs e ys. entries st = xs @ e # ys \<and> id' e = i \<and>
                 entries (deleteEntry i st) = xs @ ys))"
proof -
  let ?keep = "\<lambda>entry. id' entry \<noteq> i"
  have frame: "newEntry (deleteEntry i st) = newEntry st"
    by (simp add: deleteEntry_def)
  have sub: "subseq (entries (deleteEntry i st)) (entries st)"
    by (simp add: deleteEntry_def)
  have cnt: "count_list (filter ?keep xs) e = (if id' e = i then 0 else count_list xs e)"
    for xs :: "Entry list" and e
    by (induction xs) auto
  have absent: "deleteEntry i st = st" if "i \<notin> id' ` set (entries st)"
  proof -
    have "filter ?keep (entries st) = entries st"
      using that by (intro filter_True) auto
    then show ?thesis by (simp add: deleteEntry_def)
  qed
  have one: "\<exists>xs e ys. entries st = xs @ e # ys \<and> id' e = i \<and>
      entries (deleteEntry i st) = xs @ ys"
    if d: "distinct (map id' (entries st))" and m: "i \<in> id' ` set (entries st)"
  proof -
    from m obtain e where e: "e \<in> set (entries st)" "id' e = i" by auto
    then obtain xs ys where split: "entries st = xs @ e # ys"
      by (auto simp: in_set_conv_decomp)
    have "i \<notin> id' ` set xs" "i \<notin> id' ` set ys"
      using d e(2) unfolding split by auto
    then have "filter ?keep xs = xs" "filter ?keep ys = ys"
      by (auto intro!: filter_True)
    then have "entries (deleteEntry i st) = xs @ ys"
      using e(2) by (simp add: deleteEntry_def split)
    with split e(2) show ?thesis by blast
  qed
  show ?thesis
    using frame sub absent one by (simp add: deleteEntry_def cnt)
qed

theorem deleteEntry_removes_matching_witness:
  "''3'' \<notin> id' ` set (entries
     \<lparr> entries = [\<lparr> id' = ''1'', type' = gasto, category = ''Carne'', amount = Num 50,
                      date = ''2024-01-05'', description = Some [] \<rparr>,
                    \<lparr> id' = ''2'', type' = ingreso, category = ''Ventas'', amount = Num 200,
                      date = ''2024-01-05'', description = Some [] \<rparr>],
       newEntry = \<lparr> new_type = gasto, new_category = [], new_amount = [],
                    new_date = ''2024-01-06'', new_description = [] \<rparr> \<rparr>) \<and>
   deleteEntry ''3''
     \<lparr> entries = [\<lparr> id' = ''1'', type' = gasto, category = ''Carne'', amount = Num 50,
                      date = ''2024-01-05'', description = Some [] \<rparr>,
                    \<lparr> id' = ''2'', type' = ingreso, category = ''Ventas'', amount = Num 200,
                      date = ''2024-01-05'', description = Some [] \<rparr>],
       newEntry = \<lparr> new_type = gasto, new_category = [], new_amount = [],
                    new_date = ''2024-01-06'', new_description = [] \<rparr> \<rparr>
   = \<lparr> entries = [\<lparr> id' = ''1'', type' = gasto, category = ''Carne'', amount = Num 50,
                      date = ''2024-01-05'', description = Some [] \<rparr>,
                    \<lparr> id' = ''2'', type' = ingreso, category = ''Ventas'', amount = Num 200,
                      date = ''2024-01-05'', description = Some [] \<rparr>],
       newEntry = \<lparr> new_type = gasto, new_category = [], new_amount = [],
                    new_date = ''2024-01-06'', new_description = [] \<rparr> \<rparr> \<and>
   distinct (map id' (entries
     \<lparr> entries = [\<lparr> id' = ''1'', type' = gasto, category = ''Carne'', amount = Num 50,
                      date = ''2024-01-05'', description = Some [] \<rparr>,
                    \<lparr> id' = ''2'', type' = ingreso, category = ''Ventas'', amount = Num 200,
                      date = ''2024-01-05'', description = Some [] \<rparr>],
       newEntry = \<lparr> new_type = gasto, new_category = [], new_amount = [],
                    new_date = ''2024-01-06'', new_description = [] \<rparr> \<rparr>)) \<and>
   ''1'' \<in> id' ` set (entries
     \<lparr> entries = [\<lparr> id' = ''1'', type' = gasto, category = ''Carne'', amount = Num 50,
                      date = ''2024-01-05'', description = Some [] \<rparr>,
                    \<lparr> id' = ''2'', type' = ingreso, category = ''Ventas'', amount = Num 200,
                      date = ''2024-01-05'', description = Some [] \<rparr>],
       newEntry = \<lparr> new_type = gasto, new_category = [], new_amount = [],
                    new_date = ''2024-01-06'', new_description = [] \<rparr> \<rparr>) \<and>
   entries (deleteEntry ''1''
     \<lparr> entries = [\<lparr> id' = ''1'', type' = gasto, category = ''Carne'', amount = Num 50,
                      date = ''2024-01-05'', description = Some [] \<rparr>,
                    \<lparr> id' = ''2'', type' = ingreso, category = ''Ventas'', amount = Num 200,
                      date = ''2024-01-05'', description = Some [] \<rparr>],
       newEntry = \<lparr> new_type = gasto, new_category = [], new_amount = [],
                    new_date = ''2024-01-06'', new_description = [] \<rparr> \<rparr>)
   = [\<lparr> id' = ''2'', type' = ingreso, category = ''Ventas'', amount = Num 200,
        date = ''2024-01-05'', description = Some [] \<rparr>]"
proof -
  let ?st = "\<lparr> entries = [\<lparr> id' = ''1'', type' = gasto, category = ''Carne'', amount = Num 50,
                      date = ''2024-01-05'', description = Some [] \<rparr>,
                    \<lparr> id' = ''2'', type' = ingreso, category = ''Ventas'', amount = Num 200,
                      date = ''2024-01-05'', description = Some [] \<rparr>],
       newEntry = \<lparr> new_type = gasto, new_category = [], new_amount = [],
                    new_date = ''2024-01-06'', new_description = [] \<rparr> \<rparr>"
  have absent: "''3'' \<notin> id' ` set (entries ?st)" by simp
  have present: "distinct (map id' (entries ?st)) \<and> ''1'' \<in> id' ` set (entries ?st)" by simp
  from deleteEntry_removes_matching [of "''3''" ?st] absent
  have noop: "deleteEntry ''3'' ?st = ?st" by blast
  from deleteEntry_removes_matching [of "''1''" ?st] present
  obtain xs e ys where split: "entries ?st = xs @ e # ys" "id' e = ''1''"
    "entries (deleteEntry ''1'' ?st) = xs @ ys" by blast
  have one: "entries (deleteEntry ''1'' ?st) = [\<lparr> id' = ''2'', type' = ingreso,
      category = ''Ventas'', amount = Num 200, date = ''2024-01-05'', description = Some [] \<rparr>]"
    by (simp add: deleteEntry_def)
  show ?thesis using absent noop present one by simp
qed


text \<open>
  C8. For the empty entry list every total is zero and every mapping is empty; the
  income to expense ratio is shown as the infinity sign, not computed, and the savings rate
  is the number zero.
\<close>

theorem empty_list_totals:
  "totals [] = \<lparr> gastos = Num 0, ingresos = Num 0, balance = Num 0 \<rparr> \<and>
   categoryTotals [] = \<lparr> cat_gastos = [], cat_ingresos = [] \<rparr> \<and>
   dailyTotals [] = [] \<and>
   calendarDailyTotals [] = Inr [] \<and>
   ratioIngresoGasto (totals []) = InfinitySign \<and>
   tasaDeAhorro (totals []) = Literal 0"
  by (simp add: totals_def reduce_amount_def categoryTotals_def dailyTotals_def
      calendarDailyTotals_def ratioIngresoGasto_def tasaDeAhorro_def Let_def fsub_exact)

section \<open>Claims about the calendar\<close>

text \<open>
  C10, as stated, fails: for an entry whose date string is \<^verbatim>\<open>toString\<close> the pass reads
  the inherited function in place of a bucket, \<^verbatim>\<open>push\<close> throws a \<^verbatim>\<open>TypeError\<close>, and
  there is no table.
\<close>

theorem calendarDailyTotals_partition_counterexample:
  "calendarDailyTotals
     [\<lparr> id' = ''1'', type' = gasto, category = ''Gas'', amount = Num 30,
        date = ''toString'', description = Some [] \<rparr>] = Inl TypeError"
  by (simp add: calendarDailyTotals_def calendarStep_def obj_lookup_def inherited_names_def)

text \<open>
  C10, amended. When no date string of the list is a name that an object inherits, the
  calendar's table partitions the entries by date string: the keys are the dates that
  occur, each once; the bucket of a date holds exactly the entries of that date in their
  original order, so an entry is in the bucket of its own date and in no other; and the
  income and expense sums of a bucket are the amounts of its income and of its expense
  entries added from left to right in doubles, which are the exact sums when the amounts
  are whole, not negative and sum to at most \<open>2\<^sup>5\<^sup>3\<close>. When a date string is such a name,
  the pass ends with a \<^verbatim>\<open>TypeError\<close>.
\<close>

theorem calendarDailyTotals_partition:
  "(plain_names (map date es) \<longrightarrow>
      (\<exists>tbl. calendarDailyTotals es = Inr tbl \<and>
         distinct (map fst tbl) \<and>
         fst ` set tbl = date ` set es \<and>
         (\<forall>(d, b) \<in> set tbl.
            cal_entries b = filter (\<lambda>e. date e = d) es \<and>
            cal_ingresos b
              = sum_doubles (map amount (filter (\<lambda>e. type' e = ingreso) (cal_entries b))) \<and>
            cal_gastos b
              = sum_doubles (map amount (filter (\<lambda>e. type' e = gasto) (cal_entries b))) \<and>
            (whole_amounts es \<longrightarrow>
               cal_ingresos b = Num (amount_sum ingreso (cal_entries b)) \<and>
               cal_gastos b = Num (amount_sum gasto (cal_entries b)))) \<and>
         (\<forall>e \<in> set es. \<forall>(d, b) \<in> set tbl. e \<in> set (cal_entries b) \<longleftrightarrow> d = date e))) \<and>
   (\<not> plain_names (map date es) \<longrightarrow> calendarDailyTotals es = Inl TypeError)"
proof (intro conjI impI)
  assume "\<not> plain_names (map date es)"
  then have "\<exists>e \<in> set es. date e \<in> set inherited_names" by (simp add: plain_names_map)
  then show "calendarDailyTotals es = Inl TypeError" by (rule calendarDailyTotals_inherited)
next
  assume "plain_names (map date es)"
  then have plain: "\<forall>e \<in> set es. date e \<notin> set inherited_names" by (simp add: plain_names_map)
  from calendarDailyTotals_plain [OF plain] obtain tbl where
    t: "calendarDailyTotals es = Inr tbl" "distinct (map fst tbl)"
    and l: "\<And>d. map_of tbl d = (if d \<in> date ` set es then Some (bucket_of es d) else None)"
    by blast
  have member: "(d, b) \<in> set tbl \<longleftrightarrow> d \<in> date ` set es \<and> b = bucket_of es d" for d b
  proof -
    have "(d, b) \<in> set tbl \<longleftrightarrow> map_of tbl d = Some b" using t(2) by simp
    then show ?thesis by (auto simp: l)
  qed
  have keys: "fst ` set tbl = date ` set es"
  proof -
    have "fst ` set tbl = dom (map_of tbl)" by (simp add: dom_map_of_conv_image_fst)
    also have "\<dots> = date ` set es" by (auto simp: l dom_def)
    finally show ?thesis .
  qed
  have bucket: "cal_entries b = filter (\<lambda>e. date e = d) es \<and>
      cal_ingresos b = sum_doubles (map amount (filter (\<lambda>e. type' e = ingreso) (cal_entries b))) \<and>
      cal_gastos b = sum_doubles (map amount (filter (\<lambda>e. type' e = gasto) (cal_entries b))) \<and>
      (whole_amounts es \<longrightarrow>
         cal_ingresos b = Num (amount_sum ingreso (cal_entries b)) \<and>
         cal_gastos b = Num (amount_sum gasto (cal_entries b)))"
    if "(d, b) \<in> set tbl" for d b
  proof -
    from that have b: "b = bucket_of es d" by (simp add: member)
    have e: "cal_entries b = filter (\<lambda>e. date e = d) es"
      and i: "cal_ingresos b = reduce_amount (filter (\<lambda>e. date e = d \<and> type' e = ingreso) es)"
      and g: "cal_gastos b = reduce_amount (filter (\<lambda>e. date e = d \<and> type' e = gasto) es)"
      unfolding b by (simp_all add: bucket_of_def)
    have "whole_amounts es \<longrightarrow>
        cal_ingresos b = Num (amount_sum ingreso (filter (\<lambda>e. date e = d) es)) \<and>
        cal_gastos b = Num (amount_sum gasto (filter (\<lambda>e. date e = d) es))"
      unfolding i g amount_sum_def by (simp add: reduce_amount_exact)
    then show ?thesis
      unfolding e using i g by (simp add: reduce_amount_sum_doubles)
  qed
  have all: "\<forall>(d, b) \<in> set tbl.
      cal_entries b = filter (\<lambda>e. date e = d) es \<and>
      cal_ingresos b = sum_doubles (map amount (filter (\<lambda>e. type' e = ingreso) (cal_entries b))) \<and>
      cal_gastos b = sum_doubles (map amount (filter (\<lambda>e. type' e = gasto) (cal_entries b))) \<and>
      (whole_amounts es \<longrightarrow>
         cal_ingresos b = Num (amount_sum ingreso (cal_entries b)) \<and>
         cal_gastos b = Num (amount_sum gasto (cal_entries b)))"
    using bucket by blast
  have own: "e \<in> set (cal_entries b) \<longleftrightarrow> d = date e"
    if "e \<in> set es" "(d, b) \<in> set tbl" for e d b
    using that bucket [of d b] by auto
  then have owns: "\<forall>e \<in> set es. \<forall>(d, b) \<in> set tbl. e \<in> set (cal_entries b) \<longleftrightarrow> d = date e"
    by blast
  show "\<exists>tbl. calendarDailyTotals es = Inr tbl \<and>
         distinct (map fst tbl) \<and>
         fst ` set tbl = date ` set es \<and>
         (\<forall>(d, b) \<in> set tbl.
            cal_entries b = filter (\<lambda>e. date e = d) es \<and>
            cal_ingresos b
              = sum_doubles (map amount (filter (\<lambda>e. type' e = ingreso) (cal_entries b))) \<and>
            cal_gastos b
              = sum_doubles (map amount (filter (\<lambda>e. type' e = gasto) (cal_entries b))) \<and>
            (whole_amounts es \<longrightarrow>
               cal_ingresos b = Num (amount_sum ingreso (cal_entries b)) \<and>
               cal_gastos b = Num (amount_sum gasto (cal_entries b)))) \<and>
         (\<forall>e \<in> set es. \<forall>(d, b) \<in> set tbl. e \<in> set (cal_entries b) \<longleftrightarrow> d = date e)"
    using t keys all owns by (intro exI [of _ tbl] conjI)
qed

theorem calendarDailyTotals_partition_witness:
  "plain_names (map date scenario) \<and>
   whole_amounts scenario \<and>
   calendarDailyTotals scenario =
     Inr [(''2024-01-05'',
            \<lparr> cal_ingresos = Num 200, cal_gastos = Num 50, cal_entries = take 2 scenario \<rparr>),
          (''2024-01-06'',
            \<lparr> cal_ingresos = Num 0, cal_gastos = Num 30, cal_entries = drop 2 scenario \<rparr>)] \<and>
   take 2 scenario = filter (\<lambda>e. date e = ''2024-01-05'') scenario \<and>
   amount_sum ingreso (take 2 scenario) = 200 \<and>
   hd scenario \<in> set (take 2 scenario) \<and>
   hd scenario \<notin> set (drop 2 scenario) \<and>
   \<not> plain_names (map date
     [\<lparr> id' = ''1'', type' = gasto, category = ''Gas'', amount = Num 30,
        date = ''__proto__'', description = Some [] \<rparr>]) \<and>
   calendarDailyTotals
     [\<lparr> id' = ''1'', type' = gasto, category = ''Gas'', amount = Num 30,
        date = ''__proto__'', description = Some [] \<rparr>] = Inl TypeError"
proof -
  let ?b1 = "\<lparr> cal_ingresos = Num 200, cal_gastos = Num 50, cal_entries = take 2 scenario \<rparr>"
  let ?b2 = "\<lparr> cal_ingresos = Num 0, cal_gastos = Num 30, cal_entries = drop 2 scenario \<rparr>"
  let ?bad = "[\<lparr> id' = ''1'', type' = gasto, category = ''Gas'', amount = Num 30,
        date = ''__proto__'', description = Some [] \<rparr>]"
  have p: "plain_names (map date scenario)"
    by (simp add: plain_names_def scenario_def inherited_names_def)
  have w: "whole_amounts scenario" by (simp add: whole_amounts_def scenario_def)
  have n: "\<not> plain_names (map date ?bad)" by (simp add: plain_names_def inherited_names_def)
  have tb: "calendarDailyTotals scenario = Inr [(''2024-01-05'', ?b1), (''2024-01-06'', ?b2)]"
    by (simp add: calendarDailyTotals_def calendarStep_def pushAdd_def obj_lookup_def
        inherited_names_def scenario_def Let_def fadd_exact)
  from calendarDailyTotals_partition [of scenario, THEN conjunct1, rule_format, OF p]
  obtain tbl where
    t: "calendarDailyTotals scenario = Inr tbl"
    and b: "\<forall>(d, b) \<in> set tbl.
        cal_entries b = filter (\<lambda>e. date e = d) scenario \<and>
        cal_ingresos b
          = sum_doubles (map amount (filter (\<lambda>e. type' e = ingreso) (cal_entries b))) \<and>
        cal_gastos b
          = sum_doubles (map amount (filter (\<lambda>e. type' e = gasto) (cal_entries b))) \<and>
        (whole_amounts scenario \<longrightarrow>
           cal_ingresos b = Num (amount_sum ingreso (cal_entries b)) \<and>
           cal_gastos b = Num (amount_sum gasto (cal_entries b)))"
    and o: "\<forall>e \<in> set scenario. \<forall>(d, b) \<in> set tbl. e \<in> set (cal_entries b) \<longleftrightarrow> d = date e"
    by (elim exE conjE)
  have tbl: "tbl = [(''2024-01-05'', ?b1), (''2024-01-06'', ?b2)]" using t tb by simp
  have m: "(''2024-01-05'', ?b1) \<in> set tbl" by (simp add: tbl)
  from b m have "cal_entries ?b1 = filter (\<lambda>e. date e = ''2024-01-05'') scenario" by blast
  then have f: "take 2 scenario = filter (\<lambda>e. date e = ''2024-01-05'') scenario" by simp
  from b m w have "cal_ingresos ?b1 = Num (amount_sum ingreso (cal_entries ?b1))" by blast
  then have s: "amount_sum ingreso (take 2 scenario) = 200" by simp
  have e: "hd scenario \<in> set scenario" by (simp add: scenario_def)
  from o e have "hd scenario \<in> set (take 2 scenario) \<longleftrightarrow> ''2024-01-05'' = date (hd scenario)"
    "hd scenario \<in> set (drop 2 scenario) \<longleftrightarrow> ''2024-01-06'' = date (hd scenario)"
    unfolding tbl by simp_all
  then have i: "hd scenario \<in> set (take 2 scenario)" "hd scenario \<notin> set (drop 2 scenario)"
    by (simp_all add: scenario_def)
  from calendarDailyTotals_partition [of ?bad, THEN conjunct2, rule_format, OF n]
  have bad: "calendarDailyTotals ?bad = Inl TypeError" .
  show ?thesis using p w tb f s i n bad by (intro conjI)
qed

text \<open>
  A formatted day starts with a digit and so is not a name that an object inherits.
\<close>

declare toString.simps [simp del] format_yyyy_MM_dd.simps [simp del]

lemma toString_digit: "toString n \<noteq> [] \<and> hd (toString n) \<in> set ''0123456789''"
proof (induction n rule: toString.induct)
  case (1 n)
  have d: "digit n \<in> set ''0123456789''"
    unfolding digit_def by (rule nth_mem) simp
  show ?case
  proof (cases "n < 10")
    case True
    then show ?thesis using d by (subst (1 2) toString.simps) simp
  next
    case False
    then have "toString (n div 10) \<noteq> [] \<and> hd (toString (n div 10)) \<in> set ''0123456789''"
      by (rule "1.IH")
    then show ?thesis using False by (subst (1 2) toString.simps) simp
  qed
qed

lemma addLeadingZeros_digit:
  "0 \<le> y \<Longrightarrow> addLeadingZeros y w @ s \<noteq> [] \<and> hd (addLeadingZeros y w @ s) \<in> set ''0123456789''"
  using toString_digit [of "nat \<bar>y\<bar>"]
  by (cases "w - length (toString (nat \<bar>y\<bar>))") (simp_all add: addLeadingZeros_def Let_def)

lemma format_not_inherited:
  assumes "format_yyyy_MM_dd z day = Inr s"
  shows "s \<notin> set inherited_names"
proof -
  from assms obtain t where t: "day = Some t"
    by (cases day) (simp_all add: format_yyyy_MM_dd.simps)
  define y where "y = (if getFullYear z t > 0 then getFullYear z t else 1 - getFullYear z t)"
  define r where "r = ''-'' @ addLeadingZeros (getMonth z t + 1) 2 @ ''-''
    @ addLeadingZeros (getDate z t) 2"
  have "0 \<le> y" by (simp add: y_def)
  then have "addLeadingZeros y 4 @ r \<noteq> [] \<and> hd (addLeadingZeros y 4 @ r) \<in> set ''0123456789''"
    by (rule addLeadingZeros_digit)
  moreover have "s = addLeadingZeros y 4 @ r"
    using assms unfolding t by (simp add: format_yyyy_MM_dd.simps Let_def y_def r_def)
  ultimately have "s \<noteq> [] \<and> hd s \<in> set ''0123456789''" by simp
  then show ?thesis by (auto simp: inherited_names_def)
qed

text \<open>
  C6, as stated, fails: the colour is not determined by the sign of the day's net balance.
  On 5 January 2024 the empty list and a list with an income of 50 and an expense of 50 on
  that day have the same net balance, zero, and the cell is white for the first and yellow
  for the second. The zone is universal time and the day is given by its noon.
\<close>

lemma format_noon: "format_yyyy_MM_dd UTC_zone (Some 1704456000000) = Inr ''2024-01-05''"
  by code_simp

theorem getDayColor_sign_counterexample:
  "netBalanceOn UTC_zone [] (Some 1704456000000) = Num 0 \<and>
   netBalanceOn UTC_zone
     [\<lparr> id' = ''1'', type' = ingreso, category = ''Ventas'', amount = Num 50,
        date = ''2024-01-05'', description = Some [] \<rparr>,
      \<lparr> id' = ''2'', type' = gasto, category = ''Gas'', amount = Num 50,
        date = ''2024-01-05'', description = Some [] \<rparr>] (Some 1704456000000) = Num 0 \<and>
   getDayColor UTC_zone [] (Some 1704456000000) = Inr ''bg-white'' \<and>
   getDayColor UTC_zone
     [\<lparr> id' = ''1'', type' = ingreso, category = ''Ventas'', amount = Num 50,
        date = ''2024-01-05'', description = Some [] \<rparr>,
      \<lparr> id' = ''2'', type' = gasto, category = ''Gas'', amount = Num 50,
        date = ''2024-01-05'', description = Some [] \<rparr>] (Some 1704456000000)
     = Inr ''bg-yellow-50 border-yellow-200''"
  by (simp add: netBalanceOn_def entriesOn_def getDayColor_def colorOfBalance_def format_noon
      calendarDailyTotals_def calendarStep_def pushAdd_def obj_lookup_def inherited_names_def
      Let_def reduce_amount_def fadd_exact fsub_exact)

text \<open>
  C6, amended. When a date string of the list is a name that an object inherits, the page
  fails with a \<^verbatim>\<open>TypeError\<close> before any cell is coloured, and formatting an invalid
  date fails with a \<^verbatim>\<open>RangeError\<close>. Otherwise the cell of a day has one of four states:
  white when no entry has the day's date string; otherwise green when the day's net
  balance is positive, red when it is negative, and yellow when it is neither, that is
  zero or not a number. The net balance is the day's income sum less its expense sum, in
  the arithmetic of the source.
\<close>

theorem getDayColor_states:
  "getDayColor z es day =
     (if \<not> plain_names (map date es) then Inl TypeError
      else if day = None then Inl RangeError
      else if entriesOn z es day = [] then Inr ''bg-white''
      else if js_less (Num 0) (netBalanceOn z es day) then Inr ''bg-green-50 border-green-200''
      else if js_less (netBalanceOn z es day) (Num 0) then Inr ''bg-red-50 border-red-200''
      else Inr ''bg-yellow-50 border-yellow-200'')"
proof (cases "plain_names (map date es)")
  case False
  then have "\<exists>e \<in> set es. date e \<in> set inherited_names" by (simp add: plain_names_map)
  then have "calendarDailyTotals es = Inl TypeError" by (rule calendarDailyTotals_inherited)
  then show ?thesis using False by (simp add: getDayColor_def)
next
  case True
  then have plain: "\<forall>e \<in> set es. date e \<notin> set inherited_names" by (simp add: plain_names_map)
  from calendarDailyTotals_plain [OF plain] obtain tbl where
    t: "calendarDailyTotals es = Inr tbl"
    and l: "\<And>d. map_of tbl d = (if d \<in> date ` set es then Some (bucket_of es d) else None)"
    by blast
  show ?thesis
  proof (cases day)
    case None
    then show ?thesis using True by (simp add: getDayColor_def t format_yyyy_MM_dd.simps)
  next
    case (Some time)
    then obtain d where d: "format_yyyy_MM_dd z day = Inr d"
      by (simp add: format_yyyy_MM_dd.simps Let_def)
    then have n: "d \<notin> set inherited_names" by (rule format_not_inherited)
    have on: "entriesOn z es day = filter (\<lambda>e. date e = d) es"
      unfolding entriesOn_def d by (rule filter_cong) auto
    have none: "entriesOn z es day = [] \<longleftrightarrow> d \<notin> date ` set es"
      unfolding on by (force simp: filter_empty_conv)
    have net: "netBalanceOn z es day
        = fsub (cal_ingresos (bucket_of es d)) (cal_gastos (bucket_of es d))"
      unfolding netBalanceOn_def on by (simp add: bucket_of_def conj_commute)
    have valid: "day \<noteq> None" using Some by simp
    show ?thesis
      unfolding none net using True valid
      by (simp add: getDayColor_def t d obj_lookup_plain [OF n] l colorOfBalance_def)
  qed
qed

text \<open>
  Two days of the amended statement: a day with a positive balance, and a day whose sums
  both overflow, so that the balance is not a number and the cell is yellow.
\<close>

theorem getDayColor_states_witness:
  "getDayColor UTC_zone scenario (Some 1704456000000) = Inr ''bg-green-50 border-green-200'' \<and>
   netBalanceOn UTC_zone
     [\<lparr> id' = ''1'', type' = ingreso, category = ''Ventas'', amount = Num huge,
        date = ''2024-01-05'', description = Some [] \<rparr>,
      \<lparr> id' = ''2'', type' = ingreso, category = ''Ventas'', amount = Num huge,
        date = ''2024-01-05'', description = Some [] \<rparr>,
      \<lparr> id' = ''3'', type' = gasto, category = ''Gas'', amount = Num huge,
        date = ''2024-01-05'', description = Some [] \<rparr>,
      \<lparr> id' = ''4'', type' = gasto, category = ''Gas'', amount = Num huge,
        date = ''2024-01-05'', description = Some [] \<rparr>,
      \<lparr> id' = ''5'', type' = gasto, category = ''Gas'', amount = Num huge,
        date = ''2024-01-05'', description = Some [] \<rparr>] (Some 1704456000000) = NaN \<and>
   getDayColor UTC_zone
     [\<lparr> id' = ''1'', type' = ingreso, category = ''Ventas'', amount = Num huge,
        date = ''2024-01-05'', description = Some [] \<rparr>,
      \<lparr> id' = ''2'', type' = ingreso, category = ''Ventas'', amount = Num huge,
        date = ''2024-01-05'', description = Some [] \<rparr>,
      \<lparr> id' = ''3'', type' = gasto, category = ''Gas'', amount = Num huge,
        date = ''2024-01-05'', description = Some [] \<rparr>,
      \<lparr> id' = ''4'', type' = gasto, category = ''Gas'', amount = Num huge,
        date = ''2024-01-05'', description = Some [] \<rparr>,
      \<lparr> id' = ''5'', type' = gasto, category = ''Gas'', amount = Num huge,
        date = ''2024-01-05'', description = Some [] \<rparr>] (Some 1704456000000)
     = Inr ''bg-yellow-50 border-yellow-200''"
proof -
  let ?big = "[\<lparr> id' = ''1'', type' = ingreso, category = ''Ventas'', amount = Num huge,
        date = ''2024-01-05'', description = Some [] \<rparr>,
      \<lparr> id' = ''2'', type' = ingreso, category = ''Ventas'', amount = Num huge,
        date = ''2024-01-05'', description = Some [] \<rparr>,
      \<lparr> id' = ''3'', type' = gasto, category = ''Gas'', amount = Num huge,
        date = ''2024-01-05'', description = Some [] \<rparr>,
      \<lparr> id' = ''4'', type' = gasto, category = ''Gas'', amount = Num huge,
        date = ''2024-01-05'', description = Some [] \<rparr>,
      \<lparr> id' = ''5'', type' = gasto, category = ''Gas'', amount = Num huge,
        date = ''2024-01-05'', description = Some [] \<rparr>]"
  have p: "plain_names (map date scenario)"
    by (simp add: plain_names_def scenario_def inherited_names_def)
  have e: "entriesOn UTC_zone scenario (Some 1704456000000) \<noteq> []"
    by (simp add: entriesOn_def format_noon scenario_def)
  have n: "netBalanceOn UTC_zone scenario (Some 1704456000000) = Num 150"
    by (simp add: netBalanceOn_def entriesOn_def format_noon scenario_def
        reduce_amount_def fadd_exact fsub_exact)
  have green: "getDayColor UTC_zone scenario (Some 1704456000000)
      = Inr ''bg-green-50 border-green-200''"
    using getDayColor_states [of UTC_zone scenario "Some 1704456000000"] p e n by simp
  have p': "plain_names (map date ?big)" by (simp add: plain_names_def inherited_names_def)
  have e': "entriesOn UTC_zone ?big (Some 1704456000000) \<noteq> []"
    by (simp add: entriesOn_def format_noon)
  have n': "netBalanceOn UTC_zone ?big (Some 1704456000000) = NaN"
    by (simp add: netBalanceOn_def entriesOn_def format_noon reduce_amount_def
        huge_is_double overflow fsub_def)
  have yellow: "getDayColor UTC_zone ?big (Some 1704456000000)
      = Inr ''bg-yellow-50 border-yellow-200''"
    using getDayColor_states [of UTC_zone ?big "Some 1704456000000"] p' e' n' by simp
  show ?thesis using green n' yellow by (intro conjI)
qed

section \<open>Properties of the calendar grid\<close>











































end
